theory Spec2Isabelle
  imports Complex_Main
begin

section \<open>Configuration constants\<close>

text \<open>
  \<^verbatim>\<open>config.py\<close>: \<^verbatim>\<open>RATE_LIMIT_SLEEP = 2\<close>, \<^verbatim>\<open>RATE_LIMIT_RETRY_SLEEP = 30\<close>;
  \<^verbatim>\<open>wikidata.py\<close>: \<^verbatim>\<open>MAX_RETRIES = 5\<close>, \<^verbatim>\<open>BATCH_SIZE = 200\<close>.
  Durations are whole seconds.
\<close>

definition RATE_LIMIT_SLEEP :: nat where
  "RATE_LIMIT_SLEEP = 2"

definition RATE_LIMIT_RETRY_SLEEP :: nat where
  "RATE_LIMIT_RETRY_SLEEP = 30"

definition MAX_RETRIES :: nat where
  "MAX_RETRIES = 5"

definition BATCH_SIZE :: nat where
  "BATCH_SIZE = 200"

section \<open>The remote endpoint and the effects of a run\<close>

text \<open>
  A raw result row is the JSON object of one SPARQL binding: a dict from variable name to
  a value object, itself a dict holding (at least) the key \<^verbatim>\<open>value\<close>.
\<close>

type_synonym raw_row = "string \<rightharpoonup> (string \<rightharpoonup> string)"

text \<open>
  The two query templates differ only in their graph pattern; a query is fixed by its
  template, its \<^verbatim>\<open>OFFSET\<close> and its \<^verbatim>\<open>LIMIT\<close>.
\<close>

datatype query = NotableQuery nat nat | MuseumQuery nat nat

text \<open>
  What \<^verbatim>\<open>response.json()["results"]["bindings"]\<close> finds in a body: the row list of a
  results envelope; a JSON object without one of these keys (the subscript raises
  \<^verbatim>\<open>KeyError\<close>); JSON that is not an object, such as a list or a number, or whose
  \<^verbatim>\<open>results\<close> is not an object (the subscript raises \<^verbatim>\<open>TypeError\<close>); or text that
  is not JSON (\<^verbatim>\<open>response.json()\<close> raises \<^verbatim>\<open>requests.exceptions.JSONDecodeError\<close>, a
  subclass of \<^verbatim>\<open>RequestException\<close> in the \<^verbatim>\<open>requests\<close> library since 2.27).
  \<^verbatim>\<open>KeyError\<close> and \<^verbatim>\<open>TypeError\<close> are no \<^verbatim>\<open>RequestException\<close>.
\<close>

datatype body = Envelope "raw_row list" | NoBindings | NotObject | NotJson

text \<open>
  What one \<^verbatim>\<open>requests.post\<close> call can do: return a response with a status code and a
  body, raise \<^verbatim>\<open>requests.exceptions.Timeout\<close>, or raise another
  \<^verbatim>\<open>RequestException\<close> (a connection error).
\<close>

datatype outcome = Response nat body | Timeout | ConnectionError

text \<open>
  The remote service is arbitrary: it answers the \<open>i\<close>-th request of a run (counted from
  0) with any outcome, which may depend on the query sent.
\<close>

type_synonym remote = "nat \<Rightarrow> query \<Rightarrow> outcome"

text \<open>
  The observable effects of a run: how many requests were posted, and the arguments of
  every \<^verbatim>\<open>time.sleep\<close> call in order.
\<close>

record world =
  requests :: nat
  sleeps :: "nat list"

definition post :: "remote \<Rightarrow> query \<Rightarrow> world \<Rightarrow> outcome \<times> world" where
  "post r q w = (r (requests w) q, w\<lparr>requests := Suc (requests w)\<rparr>)"

definition sleep :: "nat \<Rightarrow> world \<Rightarrow> world" where
  "sleep t w = w\<lparr>sleeps := sleeps w @ [t]\<rparr>"

text \<open>
  The exceptions that leave \<^verbatim>\<open>_execute_sparql\<close>: the final
  \<^verbatim>\<open>RequestException("Query failed after {max_retries} retries")\<close>, carrying
  \<^verbatim>\<open>max_retries\<close>, the \<^verbatim>\<open>KeyError\<close> of a JSON object without bindings, and the
  \<^verbatim>\<open>TypeError\<close> of JSON that is not an object.
\<close>

datatype error = QueryFailed nat | KeyError | TypeError

section \<open>Query Executor: \<^verbatim>\<open>_execute_sparql\<close>\<close>

text \<open>
  The \<^verbatim>\<open>while retries < max_retries\<close> loop. \<^verbatim>\<open>raise_for_status()\<close> raises
  \<^verbatim>\<open>HTTPError\<close> for a status from 400 to 599; it is called inside the \<^verbatim>\<open>try\<close>
  block, and \<^verbatim>\<open>HTTPError\<close> is a \<^verbatim>\<open>RequestException\<close>, so the second handler
  catches it. The handlers for \<^verbatim>\<open>Timeout\<close> and \<^verbatim>\<open>RequestException\<close> do the same:
  increment \<^verbatim>\<open>retries\<close>, then sleep \<^verbatim>\<open>RATE_LIMIT_RETRY_SLEEP * retries\<close>.
\<close>

function sparql_loop ::
  "remote \<Rightarrow> query \<Rightarrow> nat \<Rightarrow> nat \<Rightarrow> world \<Rightarrow> (error + raw_row list) \<times> world" where
  "sparql_loop r q max_retries retries w =
     (if retries < max_retries then
        (case post r q w of
           (Response status b, w1) \<Rightarrow>
             if status = 429 then
               sparql_loop r q max_retries (retries + 1) (sleep RATE_LIMIT_RETRY_SLEEP w1)
             else if status \<in> {500, 502, 503, 504} then
               sparql_loop r q max_retries (retries + 1)
                 (sleep (RATE_LIMIT_RETRY_SLEEP * (retries + 1)) w1)
             else if 400 \<le> status \<and> status < 600 then
               sparql_loop r q max_retries (retries + 1)
                 (sleep (RATE_LIMIT_RETRY_SLEEP * (retries + 1)) w1)
             else
               (case b of
                  Envelope rows \<Rightarrow> (Inr rows, w1)
                | NoBindings \<Rightarrow> (Inl KeyError, w1)
                | NotObject \<Rightarrow> (Inl TypeError, w1)
                | NotJson \<Rightarrow>
                    sparql_loop r q max_retries (retries + 1)
                      (sleep (RATE_LIMIT_RETRY_SLEEP * (retries + 1)) w1))
         | (Timeout, w1) \<Rightarrow>
             sparql_loop r q max_retries (retries + 1)
               (sleep (RATE_LIMIT_RETRY_SLEEP * (retries + 1)) w1)
         | (ConnectionError, w1) \<Rightarrow>
             sparql_loop r q max_retries (retries + 1)
               (sleep (RATE_LIMIT_RETRY_SLEEP * (retries + 1)) w1))
      else (Inl (QueryFailed max_retries), w))"
  by pat_completeness auto
termination
  by (relation "measure (\<lambda>(r, q, max_retries, retries, w). max_retries - retries)") auto

declare sparql_loop.simps [simp del]

definition execute_sparql ::
  "remote \<Rightarrow> query \<Rightarrow> nat \<Rightarrow> world \<Rightarrow> (error + raw_row list) \<times> world" where
  "execute_sparql r q max_retries w = sparql_loop r q max_retries 0 w"

section \<open>Python strings\<close>

text \<open>
  A Python \<^verbatim>\<open>str\<close> is modelled as a \<^typ>\<open>string\<close> whose characters are the code points
  below 256 (ASCII and Latin-1); labels with code points beyond that range are outside
  the model. On this range \<^verbatim>\<open>str.isdigit\<close> holds of \<^verbatim>\<open>0\<close>..\<^verbatim>\<open>9\<close> and of the
  superscripts U+00B2, U+00B3 and U+00B9; the regex class \<^verbatim>\<open>\d\<close> and \<^verbatim>\<open>float\<close> know
  only \<^verbatim>\<open>0\<close>..\<^verbatim>\<open>9\<close>; the regex class \<^verbatim>\<open>\s\<close> holds of the space, U+0009..U+000D,
  U+001C..U+001F, U+0085 and U+00A0.
\<close>

definition is_ascii_digit :: "char \<Rightarrow> bool" where
  "is_ascii_digit c = (c \<in> set ''0123456789'')"

definition isdigit_char :: "char \<Rightarrow> bool" where
  "isdigit_char c = (is_ascii_digit c \<or> c \<in> set [CHR 0xB2, CHR 0xB3, CHR 0xB9])"

text \<open>\<^verbatim>\<open>s.isdigit()\<close>: every character is a digit and there is at least one.\<close>

definition isdigit :: "string \<Rightarrow> bool" where
  "isdigit s = (s \<noteq> [] \<and> list_all isdigit_char s)"

definition startswith :: "string \<Rightarrow> string \<Rightarrow> bool" where
  "startswith s p = (take (length p) s = p)"

text \<open>\<^verbatim>\<open>s.replace("-", "")\<close>.\<close>

definition remove_hyphens :: "string \<Rightarrow> string" where
  "remove_hyphens s = filter (\<lambda>c. c \<noteq> CHR ''-'') s"

definition is_space_char :: "char \<Rightarrow> bool" where
  "is_space_char c = (c \<in> set [CHR '' '', CHR 0x09, CHR 0x0A, CHR 0x0B, CHR 0x0C, CHR 0x0D,
     CHR 0x1C, CHR 0x1D, CHR 0x1E, CHR 0x1F, CHR 0x85, CHR 0xA0])"

text \<open>The regex class \<^verbatim>\<open>[-\d.]\<close>.\<close>

definition is_token_char :: "char \<Rightarrow> bool" where
  "is_token_char c = (is_ascii_digit c \<or> c = CHR ''-'' \<or> c = CHR ''.'')"

definition digits_val :: "string \<Rightarrow> nat" where
  "digits_val ds = foldl (\<lambda>n c. 10 * n + (of_char c - 48)) 0 ds"

text \<open>
  \<^verbatim>\<open>float(t)\<close> for a token \<open>t\<close> over \<^verbatim>\<open>[-\d.]\<close>: \<open>None\<close> is \<^verbatim>\<open>ValueError\<close>. Python
  accepts an optional sign, then digits with at most one point and at least one digit
  (\<^verbatim>\<open>"1."\<close>, \<^verbatim>\<open>".5"\<close> and \<^verbatim>\<open>"-.5"\<close> are floats; \<^verbatim>\<open>"."\<close>, \<^verbatim>\<open>"-"\<close>, \<^verbatim>\<open>"--1"\<close>,
  \<^verbatim>\<open>"1-2"\<close> and \<^verbatim>\<open>"1.2.3"\<close> are not). Which tokens are accepted is modelled exactly.
  The value is the exact decimal value of the literal, where \<^verbatim>\<open>float\<close> rounds it to the
  nearest binary64 number and gives \<^verbatim>\<open>inf\<close> for a literal beyond the binary64 range:
  the two agree on every literal whose value is a binary64 number, in particular on the
  integers below \<^verbatim>\<open>2**53\<close>, and differ on the others (\<^verbatim>\<open>float\<close> reads
  \<^verbatim>\<open>90.00000000000000001\<close> as 90). A statement about the value of a coordinate is
  therefore made only for literals on which the two agree.
\<close>

definition py_float :: "string \<Rightarrow> real option" where
  "py_float t =
     (let neg = startswith t ''-'';
          u = (if neg then drop 1 t else t);
          ip = takeWhile (\<lambda>c. c \<noteq> CHR ''.'') u;
          fp = drop 1 (dropWhile (\<lambda>c. c \<noteq> CHR ''.'') u)
      in if list_all is_ascii_digit ip \<and> list_all is_ascii_digit fp \<and> (ip \<noteq> [] \<or> fp \<noteq> [])
         then Some ((if neg then - 1 else 1) *
                    (real (digits_val ip) + real (digits_val fp) / 10 ^ length fp))
         else None)"

section \<open>Result Normalizer\<close>

text \<open>
  \<^verbatim>\<open>re.match(r"Point\(([-\d.]+)\s+([-\d.]+)\)", coord_str)\<close>: the two groups, or
  \<open>None\<close>. \<^verbatim>\<open>re.match\<close> anchors the pattern at the start of the string only. The
  classes \<^verbatim>\<open>[-\d.]\<close> and \<^verbatim>\<open>\s\<close> and the character \<^verbatim>\<open>)\<close> are pairwise disjoint, so a
  match, if there is one, takes each run in full: backtracking to a shorter run leaves a
  character of the run's own class where the next class is required.
\<close>

definition match_point :: "string \<Rightarrow> (string \<times> string) option" where
  "match_point s =
     (if startswith s ''Point('' then
        (let r1 = drop 6 s;
             g1 = takeWhile is_token_char r1;
             r2 = dropWhile is_token_char r1;
             ws = takeWhile is_space_char r2;
             r3 = dropWhile is_space_char r2;
             g2 = takeWhile is_token_char r3;
             r4 = dropWhile is_token_char r3
         in if g1 \<noteq> [] \<and> ws \<noteq> [] \<and> g2 \<noteq> [] \<and> startswith r4 '')''
            then Some (g1, g2) else None)
      else None)"

text \<open>\<^verbatim>\<open>_parse_coordinates\<close>: the argument is \<open>None\<close> or a string.\<close>

definition parse_coordinates :: "string option \<Rightarrow> real option \<times> real option" where
  "parse_coordinates coord_str =
     (case coord_str of
        None \<Rightarrow> (None, None)
      | Some s \<Rightarrow>
          if s = [] then (None, None)
          else
            (case match_point s of
               None \<Rightarrow> (None, None)
             | Some (g1, g2) \<Rightarrow>
                 (case py_float g1 of
                    None \<Rightarrow> (None, None)
                  | Some lon \<Rightarrow>
                      (case py_float g2 of
                         None \<Rightarrow> (None, None)
                       | Some lat \<Rightarrow> (Some lat, Some lon)))))"

text \<open>\<^verbatim>\<open>_is_qid\<close>.\<close>

definition is_qid :: "string \<Rightarrow> bool" where
  "is_qid label =
     (if label = [] then True
      else startswith label ''Q'' \<and> isdigit (remove_hyphens (drop 1 label)))"

record artwork =
  painter :: string
  painting :: string
  museum :: string
  city :: string
  country :: string
  lat :: "real option"
  lon :: "real option"
  wikipedia_url :: string

text \<open>\<^verbatim>\<open>row.get(k, {}).get("value")\<close> and \<^verbatim>\<open>row.get(k, {}).get("value", d)\<close>.\<close>

definition get_value :: "raw_row \<Rightarrow> string \<Rightarrow> string option" where
  "get_value row k = (case row k of None \<Rightarrow> None | Some b \<Rightarrow> b ''value'')"

definition get_value_or :: "raw_row \<Rightarrow> string \<Rightarrow> string \<Rightarrow> string" where
  "get_value_or row k d = (case get_value row k of None \<Rightarrow> d | Some v \<Rightarrow> v)"

text \<open>
  The labels of a row that decide whether it is kept, and the record a kept row gives:
  the body of the \<^verbatim>\<open>for row in results\<close> loop of \<^verbatim>\<open>fetch_notable_paintings_batch\<close>,
  which \<^verbatim>\<open>fetch_museum_paintings_batch\<close> repeats line by line.
\<close>

definition skipped :: "raw_row \<Rightarrow> bool" where
  "skipped row =
     (is_qid (get_value_or row ''painterLabel'' '''') \<or>
      is_qid (get_value_or row ''paintingLabel'' '''') \<or>
      is_qid (get_value_or row ''museumLabel'' ''''))"

definition record_of :: "raw_row \<Rightarrow> artwork" where
  "record_of row =
     (case parse_coordinates (get_value row ''coords'') of
        (lat', lon') \<Rightarrow>
          \<lparr>painter = get_value_or row ''painterLabel'' '''',
           painting = get_value_or row ''paintingLabel'' '''',
           museum = get_value_or row ''museumLabel'' '''',
           city = ''Unknown'',
           country = get_value_or row ''countryLabel'' ''Unknown'',
           lat = lat', lon = lon',
           wikipedia_url = get_value_or row ''article'' ''''\<rparr>)"

text \<open>
  The loop itself: a skipped row is passed over (\<^verbatim>\<open>continue\<close>), any other row appends
  its record to \<^verbatim>\<open>paintings\<close>.
\<close>

fun paintings_of :: "raw_row list \<Rightarrow> artwork list" where
  "paintings_of [] = []"
| "paintings_of (row # results) =
     (if skipped row then paintings_of results
      else record_of row # paintings_of results)"

definition fetch_notable_paintings_batch ::
  "remote \<Rightarrow> nat \<Rightarrow> nat \<Rightarrow> world \<Rightarrow> (error + artwork list) \<times> world" where
  "fetch_notable_paintings_batch r offset limit w =
     (case execute_sparql r (NotableQuery offset limit) MAX_RETRIES w of
        (Inl e, w1) \<Rightarrow> (Inl e, w1)
      | (Inr results, w1) \<Rightarrow> (Inr (paintings_of results), w1))"

definition fetch_museum_paintings_batch ::
  "remote \<Rightarrow> nat \<Rightarrow> nat \<Rightarrow> world \<Rightarrow> (error + artwork list) \<times> world" where
  "fetch_museum_paintings_batch r offset limit w =
     (case execute_sparql r (MuseumQuery offset limit) MAX_RETRIES w of
        (Inl e, w1) \<Rightarrow> (Inl e, w1)
      | (Inr results, w1) \<Rightarrow> (Inr (paintings_of results), w1))"

section \<open>Batch Paginator and Multi-Strategy Orchestrator: \<^verbatim>\<open>fetch_all_artworks\<close>\<close>

text \<open>
  Strategy 1, the \<^verbatim>\<open>while True\<close> loop. \<^verbatim>\<open>batch\<close> is what
  \<^verbatim>\<open>fetch_notable_paintings_batch\<close> returns, the records left after the skipped rows;
  \<^verbatim>\<open>if not batch: break\<close> tests this list. Any exception of the fetch ends the loop
  (\<^verbatim>\<open>except Exception: break\<close>).
\<close>

function notable_loop ::
  "remote \<Rightarrow> nat \<Rightarrow> artwork list \<Rightarrow> world \<Rightarrow> artwork list \<times> world" where
  "notable_loop r offset all_rows w =
     (case fetch_notable_paintings_batch r offset BATCH_SIZE w of
        (Inl e, w1) \<Rightarrow> (all_rows, w1)
      | (Inr batch, w1) \<Rightarrow>
          if batch = [] then (all_rows, w1)
          else if offset + BATCH_SIZE \<ge> 2000 then (all_rows @ batch, w1)
          else notable_loop r (offset + BATCH_SIZE) (all_rows @ batch) (sleep RATE_LIMIT_SLEEP w1))"
  by pat_completeness auto
termination
  by (relation "measure (\<lambda>(r, offset, all_rows, w). 2000 - offset)")
     (auto simp: BATCH_SIZE_def)

declare notable_loop.simps [simp del]

text \<open>
  Strategy 2, the \<^verbatim>\<open>for sample_offset in sample_offsets\<close> loop: one page per offset;
  an exception skips the rest of the iteration, the sleep included (\<^verbatim>\<open>continue\<close>).
\<close>

definition sample_offsets :: "nat list" where
  "sample_offsets = [0, 5000, 10000, 20000, 30000, 50000]"

fun museum_loop ::
  "remote \<Rightarrow> nat list \<Rightarrow> artwork list \<Rightarrow> world \<Rightarrow> artwork list \<times> world" where
  "museum_loop r [] all_rows w = (all_rows, w)"
| "museum_loop r (sample_offset # offsets) all_rows w =
     (case fetch_museum_paintings_batch r sample_offset BATCH_SIZE w of
        (Inl e, w1) \<Rightarrow> museum_loop r offsets all_rows w1
      | (Inr batch, w1) \<Rightarrow>
          museum_loop r offsets (if batch \<noteq> [] then all_rows @ batch else all_rows)
            (sleep RATE_LIMIT_SLEEP w1))"

text \<open>The working set \<^verbatim>\<open>all_rows\<close> after both strategies.\<close>

definition all_rows_of :: "remote \<Rightarrow> world \<Rightarrow> artwork list \<times> world" where
  "all_rows_of r w =
     (case notable_loop r 0 [] w of
        (rows1, w1) \<Rightarrow> museum_loop r sample_offsets rows1 w1)"

text \<open>A polars \<^verbatim>\<open>DataFrame\<close>: its schema (column names and types) and its rows.\<close>

datatype dtype = Utf8 | Float64

record dataframe =
  df_schema :: "(string \<times> dtype) list"
  df_rows :: "artwork list"

definition artwork_schema :: "(string \<times> dtype) list" where
  "artwork_schema =
     [(''painter'', Utf8), (''painting'', Utf8), (''museum'', Utf8), (''city'', Utf8),
      (''country'', Utf8), (''lat'', Float64), (''lon'', Float64), (''wikipedia_url'', Utf8)]"

text \<open>The deduplication key \<^verbatim>\<open>subset=["painter", "painting", "museum"]\<close>.\<close>

definition identity_key :: "artwork \<Rightarrow> string \<times> string \<times> string" where
  "identity_key a = (painter a, painting a, museum a)"

text \<open>
  \<^verbatim>\<open>df.unique(subset=["painter", "painting", "museum"])\<close> is a function of the polars
  library, called with its defaults \<^verbatim>\<open>keep="any"\<close> and \<^verbatim>\<open>maintain_order=False\<close>. The
  library groups the rows of the frame by the key and keeps the first row of every group,
  with all its columns: of several rows with one key, the one that comes first in the
  frame (its documentation of \<^verbatim>\<open>keep="any"\<close> names no row; this is what its
  implementation does). \<open>keep_first\<close> is this function on the list of rows. It lists the kept rows in
  the order of the input, where the library returns them in no fixed order; no statement
  below depends on the order of the result. \<^verbatim>\<open>fetch_all_artworks\<close> takes the
  deduplication as a parameter \<open>uniq\<close>: the code is \<open>fetch_all_artworks keep_first\<close>.
\<close>

fun keep_first :: "artwork list \<Rightarrow> artwork list" where
  "keep_first [] = []"
| "keep_first (x # xs) =
     x # keep_first (filter (\<lambda>y. identity_key y \<noteq> identity_key x) xs)"

text \<open>\<^verbatim>\<open>fetch_all_artworks\<close>; the flag \<^verbatim>\<open>verbose\<close> is never read.\<close>

definition fetch_all_artworks ::
  "(artwork list \<Rightarrow> artwork list) \<Rightarrow> remote \<Rightarrow> world \<Rightarrow> dataframe \<times> world" where
  "fetch_all_artworks uniq r w =
     (case all_rows_of r w of
        (all_rows, w2) \<Rightarrow>
          if all_rows = [] then (\<lparr>df_schema = artwork_schema, df_rows = []\<rparr>, w2)
          else (\<lparr>df_schema = artwork_schema, df_rows = uniq all_rows\<rparr>, w2))"
section \<open>Notions used in the statements\<close>


text \<open>
  The outcomes after which \<^verbatim>\<open>_execute_sparql\<close> goes round its loop again: the retryable
  ones, every other status from 400 to 599, and a body that is not JSON.
\<close>

definition retried :: "outcome \<Rightarrow> bool" where
  "retried out =
     (case out of
        Response status b \<Rightarrow>
          status = 429 \<or> status \<in> {500, 502, 503, 504} \<or> (400 \<le> status \<and> status < 600) \<or>
          b = NotJson
      | Timeout \<Rightarrow> True
      | ConnectionError \<Rightarrow> True)"

text \<open>
  What the loop leaves with after an outcome that it does not retry: the rows of a results
  envelope, \<^verbatim>\<open>TypeError\<close> for JSON that is not an object, \<^verbatim>\<open>KeyError\<close> for a JSON
  object without bindings. (For a retried outcome the value is not used.)
\<close>

definition answer :: "outcome \<Rightarrow> error + raw_row list" where
  "answer out =
     (case out of
        Response status (Envelope rows) \<Rightarrow> Inr rows
      | Response status NotObject \<Rightarrow> Inl TypeError
      | _ \<Rightarrow> Inl KeyError)"

text \<open>
  The sleep after the \<open>n\<close>-th attempt of a call (counted from 1) when its outcome is
  retried: the cooldown after a 429, \<open>n\<close> times the cooldown after anything else.
\<close>

definition backoff :: "nat \<Rightarrow> outcome \<Rightarrow> nat" where
  "backoff n out =
     (case out of
        Response status b \<Rightarrow>
          if status = 429 then RATE_LIMIT_RETRY_SLEEP else RATE_LIMIT_RETRY_SLEEP * n
      | _ \<Rightarrow> RATE_LIMIT_RETRY_SLEEP * n)"

text \<open>
  The sleeps the specification describes for a sequence of retried outcomes: the cooldown
  after a 429, and after any other outcome the cooldown times \<open>n\<close>, where \<open>n\<close> counts
  the outcomes so far that are not a 429, the current one included.
\<close>

fun spec_sleeps_from :: "nat \<Rightarrow> outcome list \<Rightarrow> nat list" where
  "spec_sleeps_from n [] = []"
| "spec_sleeps_from n (Response status b # outs) =
     (if status = 429 then RATE_LIMIT_RETRY_SLEEP # spec_sleeps_from n outs
      else RATE_LIMIT_RETRY_SLEEP * (n + 1) # spec_sleeps_from (n + 1) outs)"
| "spec_sleeps_from n (out # outs) =
     RATE_LIMIT_RETRY_SLEEP * (n + 1) # spec_sleeps_from (n + 1) outs"

definition spec_sleeps :: "outcome list \<Rightarrow> nat list" where
  "spec_sleeps outs = spec_sleeps_from 0 outs"



text \<open>
  The placeholder pattern of the specification, \<^verbatim>\<open>^Q[0-9-]+$\<close> with no other characters:
  the letter Q, then one or more characters, each a digit \<^verbatim>\<open>0\<close>..\<^verbatim>\<open>9\<close> or a hyphen.
\<close>

definition spec_placeholder :: "string \<Rightarrow> bool" where
  "spec_placeholder s =
     (case s of
        [] \<Rightarrow> False
      | c # rest \<Rightarrow>
          c = CHR ''Q'' \<and> rest \<noteq> [] \<and> list_all (\<lambda>d. is_ascii_digit d \<or> d = CHR ''-'') rest)"

text \<open>
  The rejection rule of the specification: one of the three labels is empty or matches
  the placeholder pattern.
\<close>

definition spec_rejects :: "raw_row \<Rightarrow> bool" where
  "spec_rejects row =
     list_ex (\<lambda>l. l = [] \<or> spec_placeholder l)
       [get_value_or row ''painterLabel'' '''', get_value_or row ''paintingLabel'' '''',
        get_value_or row ''museumLabel'' '''']"

text \<open>
  The geometry strings of the specification, \<^verbatim>\<open>Point(<lon> <lat>)\<close>: two numbers that
  \<^verbatim>\<open>float\<close> reads, separated by white space, between \<^verbatim>\<open>Point(\<close> and a closing
  parenthesis that ends the string.
\<close>

definition spec_point_string :: "string \<Rightarrow> bool" where
  "spec_point_string s =
     (\<exists>a ws b. s = ''Point('' @ a @ ws @ b @ '')'' \<and> ws \<noteq> [] \<and> list_all is_space_char ws \<and>
        py_float a \<noteq> None \<and> py_float b \<noteq> None)"

text \<open>
  A raw row is served by the remote when some answer of the remote, to some request and
  query, is a response whose body is a results envelope holding the row.
\<close>

definition served :: "remote \<Rightarrow> raw_row \<Rightarrow> bool" where
  "served r row = (\<exists>i q status rows. r i q = Response status (Envelope rows) \<and> row \<in> set rows)"

text \<open>A record made by the loop from a served row that it does not skip.\<close>

definition from_served :: "remote \<Rightarrow> artwork \<Rightarrow> bool" where
  "from_served r a = (\<exists>row. served r row \<and> \<not> skipped row \<and> a = record_of row)"

section \<open>Example inputs\<close>

text \<open>A run starts with no request posted and no sleep.\<close>

definition start :: world where
  "start = \<lparr>requests = 0, sleeps = []\<rparr>"

text \<open>
  A remote that answers the first request of a run with one page of rows, and every later
  request with an empty page.
\<close>

definition one_page :: "raw_row list \<Rightarrow> remote" where
  "one_page rows = (\<lambda>i q. if i = 0 then Response 200 (Envelope rows) else Response 200 (Envelope []))"

text \<open>
  A remote that answers the first request with a page \<open>rows1\<close>, the second with a page
  \<open>rows2\<close>, and every later request with an empty page.
\<close>

definition two_pages :: "raw_row list \<Rightarrow> raw_row list \<Rightarrow> remote" where
  "two_pages rows1 rows2 =
     (\<lambda>i q. if i = 0 then Response 200 (Envelope rows1)
            else if i = 1 then Response 200 (Envelope rows2)
            else Response 200 (Envelope []))"

text \<open>A row with all labels, and a geometry whose numbers are no latitude or longitude.\<close>

definition row_far :: raw_row where
  "row_far = [''painterLabel'' \<mapsto> [''value'' \<mapsto> ''Monet''],
              ''paintingLabel'' \<mapsto> [''value'' \<mapsto> ''Impression''],
              ''museumLabel'' \<mapsto> [''value'' \<mapsto> ''Marmottan''],
              ''coords'' \<mapsto> [''value'' \<mapsto> ''Point(200 100)'']]"

text \<open>The same painting with a geometry in range and a country, and without a geometry.\<close>

definition row_paris :: raw_row where
  "row_paris = [''painterLabel'' \<mapsto> [''value'' \<mapsto> ''Monet''],
                ''paintingLabel'' \<mapsto> [''value'' \<mapsto> ''Impression''],
                ''museumLabel'' \<mapsto> [''value'' \<mapsto> ''Marmottan''],
                ''countryLabel'' \<mapsto> [''value'' \<mapsto> ''France''],
                ''coords'' \<mapsto> [''value'' \<mapsto> ''Point(2.27 48.86)'']]"

definition row_bare :: raw_row where
  "row_bare = [''painterLabel'' \<mapsto> [''value'' \<mapsto> ''Monet''],
               ''paintingLabel'' \<mapsto> [''value'' \<mapsto> ''Impression''],
               ''museumLabel'' \<mapsto> [''value'' \<mapsto> ''Marmottan'']]"

text \<open>A row whose painter label is an untranslated identifier.\<close>

definition row_qid :: raw_row where
  "row_qid = [''painterLabel'' \<mapsto> [''value'' \<mapsto> ''Q296''],
              ''paintingLabel'' \<mapsto> [''value'' \<mapsto> ''Impression''],
              ''museumLabel'' \<mapsto> [''value'' \<mapsto> ''Marmottan'']]"

text \<open>
  A remote that answers by strategy: to the notable-works query at offset 0 the page
  \<open>rows1\<close>, to the museum query at offset 0 the page \<open>rows2\<close>, and to every other
  query an empty page.
\<close>

definition by_strategy :: "raw_row list \<Rightarrow> raw_row list \<Rightarrow> remote" where
  "by_strategy rows1 rows2 =
     (\<lambda>i q. case q of
          NotableQuery offset limit \<Rightarrow>
            if offset = 0 then Response 200 (Envelope rows1) else Response 200 (Envelope [])
        | MuseumQuery offset limit \<Rightarrow>
            if offset = 0 then Response 200 (Envelope rows2) else Response 200 (Envelope []))"

text \<open>The row of that painting with the geometry string \<open>g\<close>.\<close>

definition row_with :: "string \<Rightarrow> raw_row" where
  "row_with g = [''painterLabel'' \<mapsto> [''value'' \<mapsto> ''Monet''],
                 ''paintingLabel'' \<mapsto> [''value'' \<mapsto> ''Impression''],
                 ''museumLabel'' \<mapsto> [''value'' \<mapsto> ''Marmottan''],
                 ''coords'' \<mapsto> [''value'' \<mapsto> g]]"
section \<open>The Query Executor\<close>

lemma sparql_loop_stop:
  "\<not> k < m \<Longrightarrow> sparql_loop r q m k w = (Inl (QueryFailed m), w)"
  by (subst sparql_loop.simps) simp

lemma sparql_loop_retry:
  "k < m \<Longrightarrow> retried (r (requests w) q) \<Longrightarrow>
   sparql_loop r q m k w =
     sparql_loop r q m (Suc k)
       (w\<lparr>requests := Suc (requests w), sleeps := sleeps w @ [backoff (Suc k) (r (requests w) q)]\<rparr>)"
  by (subst sparql_loop.simps, cases "r (requests w) q")
     (auto simp: retried_def backoff_def post_def sleep_def split: body.splits)

lemma sparql_loop_done:
  "k < m \<Longrightarrow> \<not> retried (r (requests w) q) \<Longrightarrow>
   sparql_loop r q m k w = (answer (r (requests w) q), w\<lparr>requests := Suc (requests w)\<rparr>)"
  by (subst sparql_loop.simps, cases "r (requests w) q")
     (auto simp: retried_def answer_def post_def split: body.splits)

lemma sparql_loop_exhausted:
  "\<forall>i < n. retried (r (requests w + i) q) \<Longrightarrow>
   sparql_loop r q (k + n) k w =
     (Inl (QueryFailed (k + n)),
      w\<lparr>requests := requests w + n,
       sleeps := sleeps w @ map (\<lambda>i. backoff (k + i + 1) (r (requests w + i) q)) [0..<n]\<rparr>)"
proof (induction n arbitrary: k w)
  case 0
  have "\<not> k < k + 0" by simp
  from sparql_loop_stop[OF this] show ?case by simp
next
  case (Suc n)
  have r0: "retried (r (requests w) q)"
    using Suc.prems[rule_format, of 0] by simp
  let ?w = "w\<lparr>requests := Suc (requests w), sleeps := sleeps w @ [backoff (Suc k) (r (requests w) q)]\<rparr>"
  have nxt: "\<forall>i < n. retried (r (requests ?w + i) q)"
  proof (intro allI impI)
    fix i assume "i < n"
    then have "retried (r (requests w + Suc i) q)"
      using Suc.prems[rule_format, of "Suc i"] by simp
    then show "retried (r (requests ?w + i) q)" by simp
  qed
  have "k < k + Suc n" by simp
  then have "sparql_loop r q (k + Suc n) k w = sparql_loop r q (k + Suc n) (Suc k) ?w"
    using r0 by (rule sparql_loop_retry)
  then have step: "sparql_loop r q (k + Suc n) k w = sparql_loop r q (Suc k + n) (Suc k) ?w"
    by simp
  have "sparql_loop r q (k + Suc n) k w =
     (Inl (QueryFailed (Suc k + n)),
      ?w\<lparr>requests := requests ?w + n,
       sleeps := sleeps ?w @ map (\<lambda>i. backoff (Suc k + i + 1) (r (requests ?w + i) q)) [0..<n]\<rparr>)"
    unfolding step by (rule Suc.IH[OF nxt])
  then show ?case
    by (simp add: map_upt_Suc del: upt_Suc)
qed

lemma sparql_loop_answered:
  "j < m - k \<Longrightarrow> \<forall>i < j. retried (r (requests w + i) q) \<Longrightarrow> \<not> retried (r (requests w + j) q) \<Longrightarrow>
   sparql_loop r q m k w =
     (answer (r (requests w + j) q),
      w\<lparr>requests := requests w + j + 1,
       sleeps := sleeps w @ map (\<lambda>i. backoff (k + i + 1) (r (requests w + i) q)) [0..<j]\<rparr>)"
proof (induction j arbitrary: k w)
  case 0
  then have "k < m" by simp
  from sparql_loop_done[OF this] 0 show ?case by simp
next
  case (Suc j)
  then have km: "k < m" by simp
  have r0: "retried (r (requests w) q)"
    using Suc.prems(2)[rule_format, of 0] by simp
  let ?w = "w\<lparr>requests := Suc (requests w), sleeps := sleeps w @ [backoff (Suc k) (r (requests w) q)]\<rparr>"
  have a: "j < m - Suc k" using Suc.prems(1) by simp
  have b: "\<forall>i < j. retried (r (requests ?w + i) q)"
  proof (intro allI impI)
    fix i assume "i < j"
    then have "retried (r (requests w + Suc i) q)"
      using Suc.prems(2)[rule_format, of "Suc i"] by simp
    then show "retried (r (requests ?w + i) q)" by simp
  qed
  have c: "\<not> retried (r (requests ?w + j) q)" using Suc.prems(3) by simp
  have step: "sparql_loop r q m k w = sparql_loop r q m (Suc k) ?w"
    using km r0 by (rule sparql_loop_retry)
  have "sparql_loop r q m k w =
     (answer (r (requests ?w + j) q),
      ?w\<lparr>requests := requests ?w + j + 1,
       sleeps := sleeps ?w @ map (\<lambda>i. backoff (Suc k + i + 1) (r (requests ?w + i) q)) [0..<j]\<rparr>)"
    unfolding step by (rule Suc.IH[OF a b c])
  then show ?case
    by (simp add: map_upt_Suc del: upt_Suc)
qed


lemma execute_sparql_cases:
  "(\<forall>i < m. retried (r (requests w + i) q)) \<and>
     execute_sparql r q m w =
       (Inl (QueryFailed m),
        w\<lparr>requests := requests w + m,
          sleeps := sleeps w @ map (\<lambda>i. backoff (i + 1) (r (requests w + i) q)) [0..<m]\<rparr>)
   \<or> (\<exists>j < m. (\<forall>i < j. retried (r (requests w + i) q)) \<and> \<not> retried (r (requests w + j) q) \<and>
     execute_sparql r q m w =
       (answer (r (requests w + j) q),
        w\<lparr>requests := requests w + j + 1,
          sleeps := sleeps w @ map (\<lambda>i. backoff (i + 1) (r (requests w + i) q)) [0..<j]\<rparr>))"
proof (cases "\<forall>i < m. retried (r (requests w + i) q)")
  case True
  from sparql_loop_exhausted[where k = 0 and n = m and r = r and w = w and q = q] True
  show ?thesis by (simp add: execute_sparql_def)
next
  case False
  then obtain i0 where i0: "i0 < m" "\<not> retried (r (requests w + i0) q)" by blast
  define j where "j = (LEAST i. \<not> retried (r (requests w + i) q))"
  have nj: "\<not> retried (r (requests w + j) q)"
    unfolding j_def using i0(2) by (rule LeastI)
  have lj: "\<forall>i < j. retried (r (requests w + i) q)"
    unfolding j_def using not_less_Least by blast
  have "j \<le> i0" unfolding j_def using i0(2) by (rule Least_le)
  with i0(1) have jm: "j < m" by simp
  then have "j < m - 0" by simp
  with sparql_loop_answered[where j = j and m = m and k = 0 and r = r and w = w and q = q] lj nj
  have "execute_sparql r q m w =
       (answer (r (requests w + j) q),
        w\<lparr>requests := requests w + j + 1,
          sleeps := sleeps w @ map (\<lambda>i. backoff (i + 1) (r (requests w + i) q)) [0..<j]\<rparr>)"
    by (simp add: execute_sparql_def)
  with jm lj nj show ?thesis by blast
qed



text \<open>
  C1: a 404 answer does not end \<^verbatim>\<open>_execute_sparql\<close> after one attempt. The
  \<^verbatim>\<open>HTTPError\<close> of \<^verbatim>\<open>raise_for_status()\<close> is caught by the handler for
  \<^verbatim>\<open>RequestException\<close>: against a remote that answers 404 to every request, the call
  posts five requests, sleeps 30, 60, 90, 120 and 150 seconds, and only then raises.
\<close>

theorem execute_sparql_404_retries:
  "execute_sparql (\<lambda>i q. Response 404 NotJson) (NotableQuery 0 200) MAX_RETRIES
     \<lparr>requests = 0, sleeps = []\<rparr> =
   (Inl (QueryFailed 5), \<lparr>requests = 5, sleeps = [30, 60, 90, 120, 150]\<rparr>)"
  by (simp add: execute_sparql_def sparql_loop.simps post_def sleep_def MAX_RETRIES_def
      RATE_LIMIT_RETRY_SLEEP_def)
text \<open>
  C8 (as stated) fails: a 429 does count towards the multiplier of later sleeps. After a
  429 and then a 503 the sleeps are 30 and 60 seconds, where the specification's rule
  gives 30 and 30.
\<close>

theorem rate_limit_counts_towards_backoff:
  "sleeps (snd (execute_sparql
      (\<lambda>i q. if i = 0 then Response 429 NotJson
             else if i = 1 then Response 503 NotJson
             else Response 200 (Envelope []))
      (NotableQuery 0 200) MAX_RETRIES \<lparr>requests = 0, sleeps = []\<rparr>)) = [30, 60] \<and>
   spec_sleeps [Response 429 NotJson, Response 503 NotJson] = [30, 30]"
  by (simp add: execute_sparql_def sparql_loop.simps post_def sleep_def MAX_RETRIES_def
      RATE_LIMIT_RETRY_SLEEP_def spec_sleeps_def)

text \<open>
  C8 (amended): \<^verbatim>\<open>_execute_sparql\<close> sleeps once after every attempt whose outcome is
  retried, and never otherwise. After the \<open>i\<close>-th attempt of the call (counted from 1)
  it sleeps the cooldown of 30 seconds when the outcome is a 429, and \<open>i\<close> times the
  cooldown for any other retried outcome: \<open>i\<close> counts every earlier attempt, the 429s
  included. Server errors from the first attempt on sleep 30, 60, 90, ... seconds.
\<close>

theorem execute_sparql_sleeps:
  "\<exists>n \<le> m. (\<forall>i < n. retried (r (requests w + i) q)) \<and>
      (n < m \<longrightarrow> \<not> retried (r (requests w + n) q)) \<and>
      sleeps (snd (execute_sparql r q m w)) =
        sleeps w @ map (\<lambda>i. backoff (i + 1) (r (requests w + i) q)) [0..<n]"
proof -
  from execute_sparql_cases[of m r w q] show ?thesis
  proof (elim disjE conjE exE)
    assume "\<forall>i < m. retried (r (requests w + i) q)"
      and "execute_sparql r q m w =
       (Inl (QueryFailed m),
        w\<lparr>requests := requests w + m,
          sleeps := sleeps w @ map (\<lambda>i. backoff (i + 1) (r (requests w + i) q)) [0..<m]\<rparr>)"
    then show ?thesis by (intro exI[of _ m]) simp
  next
    fix j
    assume "j < m" "\<forall>i < j. retried (r (requests w + i) q)"
      "\<not> retried (r (requests w + j) q)"
      and "execute_sparql r q m w =
       (answer (r (requests w + j) q),
        w\<lparr>requests := requests w + j + 1,
          sleeps := sleeps w @ map (\<lambda>i. backoff (i + 1) (r (requests w + i) q)) [0..<j]\<rparr>)"
    then show ?thesis by (intro exI[of _ j]) simp
  qed
qed

theorem execute_sparql_sleeps_witness:
  "sleeps (snd (execute_sparql
      (\<lambda>i q. if i < 3 then Response 503 NotJson else Response 200 (Envelope []))
      (NotableQuery 0 200) MAX_RETRIES \<lparr>requests = 0, sleeps = []\<rparr>)) = [30, 60, 90]"
proof -
  let ?r = "\<lambda>(i::nat) (q::query). if i < 3 then Response 503 NotJson else Response 200 (Envelope [])"
  let ?w = "\<lparr>requests = 0, sleeps = []\<rparr>"
  have ret: "retried (?r i q) \<longleftrightarrow> i < 3" for i and q :: query
    by (simp add: retried_def)
  from execute_sparql_sleeps[of MAX_RETRIES ?r ?w "NotableQuery 0 200"]
  obtain n where n: "n \<le> MAX_RETRIES" "\<forall>i < n. i < 3" "n < MAX_RETRIES \<longrightarrow> \<not> n < 3"
    and s: "sleeps (snd (execute_sparql ?r (NotableQuery 0 200) MAX_RETRIES ?w)) =
        map (\<lambda>i. backoff (i + 1) (?r i (NotableQuery 0 200))) [0..<n]"
    unfolding ret by auto
  have "n \<le> 3"
  proof (rule ccontr)
    assume "\<not> n \<le> 3"
    then have "3 < n" by simp
    with n(2) show False by blast
  qed
  moreover have "3 \<le> n" using n(3) \<open>n \<le> 3\<close> by (simp add: MAX_RETRIES_def)
  ultimately have "n = 3" by simp
  then have "[0..<n] = [0, 1, 2]" by (simp add: upt_rec)
  with s show ?thesis
    by (simp add: backoff_def RATE_LIMIT_RETRY_SLEEP_def)
qed

section \<open>The Result Normalizer\<close>

lemma list_all_filter_neq:
  "list_all P (filter (\<lambda>c. c \<noteq> h) xs) \<longleftrightarrow> list_all (\<lambda>c. P c \<or> c = h) xs"
  by (induction xs) auto

lemma filter_neq_nonempty:
  "\<not> P h \<Longrightarrow> list_all (\<lambda>c. P c \<or> c = h) xs \<Longrightarrow>
   filter (\<lambda>c. c \<noteq> h) xs \<noteq> [] \<longleftrightarrow> list_ex P xs"
  by (induction xs) auto

lemma hyphen_not_digit: "\<not> isdigit_char (CHR ''-'')"
  by (simp add: isdigit_char_def is_ascii_digit_def)

lemma isdigit_remove_hyphens:
  "isdigit (remove_hyphens rest) \<longleftrightarrow>
   list_all (\<lambda>c. isdigit_char c \<or> c = CHR ''-'') rest \<and> list_ex isdigit_char rest"
  unfolding isdigit_def remove_hyphens_def list_all_filter_neq
  using filter_neq_nonempty[where P = isdigit_char and h = "CHR ''-''" and xs = rest]
    hyphen_not_digit by blast

lemma is_qid_iff:
  "is_qid label \<longleftrightarrow>
   label = [] \<or>
   (\<exists>rest. label = CHR ''Q'' # rest \<and>
      list_all (\<lambda>c. isdigit_char c \<or> c = CHR ''-'') rest \<and> list_ex isdigit_char rest)"
proof (cases label)
  case Nil
  then show ?thesis by (simp add: is_qid_def)
next
  case (Cons c rest)
  then show ?thesis
    by (simp add: is_qid_def startswith_def isdigit_remove_hyphens)
qed

lemma space_not_token: "is_space_char c \<Longrightarrow> \<not> is_token_char c"
  by (auto simp: is_space_char_def is_token_char_def is_ascii_digit_def)

lemma paren_not_token: "\<not> is_token_char (CHR '')'')"
  by (simp add: is_token_char_def is_ascii_digit_def)

lemma token_not_space: "is_token_char c \<Longrightarrow> \<not> is_space_char c"
  using space_not_token by blast

lemma run_then_other:
  "list_all P xs \<Longrightarrow> ys \<noteq> [] \<Longrightarrow> \<not> P (hd ys) \<Longrightarrow>
   takeWhile P (xs @ ys) = xs \<and> dropWhile P (xs @ ys) = ys"
  by (induction xs) (auto simp: neq_Nil_conv)

lemma list_all_weaken: "list_all D u \<Longrightarrow> list_all (\<lambda>c. D c \<or> c = d) u"
  by (induction u) simp_all

lemma split_at_point:
  "list_all D (takeWhile (\<lambda>c. c \<noteq> d) u) \<Longrightarrow> list_all D (drop 1 (dropWhile (\<lambda>c. c \<noteq> d) u)) \<Longrightarrow>
   list_all (\<lambda>c. D c \<or> c = d) u"
  by (induction u) (auto simp: list_all_weaken split: if_splits)

lemma py_float_token:
  assumes "py_float t = Some x"
  shows "t \<noteq> [] \<and> list_all is_token_char t"
proof -
  define u where "u = (if startswith t ''-'' then drop 1 t else t)"
  define ip where "ip = takeWhile (\<lambda>c. c \<noteq> CHR ''.'') u"
  define fp where "fp = drop 1 (dropWhile (\<lambda>c. c \<noteq> CHR ''.'') u)"
  from assms have v: "list_all is_ascii_digit ip" "list_all is_ascii_digit fp" "ip \<noteq> [] \<or> fp \<noteq> []"
    unfolding py_float_def Let_def u_def ip_def fp_def by (auto split: if_splits)
  from v(3) have une: "u \<noteq> []" unfolding ip_def fp_def by auto
  from split_at_point[of is_ascii_digit "CHR ''.''" u] v(1,2)
  have "list_all (\<lambda>c. is_ascii_digit c \<or> c = CHR ''.'') u"
    unfolding ip_def fp_def by simp
  then have ut: "list_all is_token_char u"
    unfolding list_all_iff is_token_char_def by blast
  show ?thesis
  proof (cases "startswith t ''-''")
    case True
    then have "t = CHR ''-'' # u"
      unfolding u_def startswith_def by (cases t) auto
    with ut show ?thesis by (simp add: is_token_char_def)
  next
    case False
    then have "t = u" unfolding u_def by simp
    with ut une show ?thesis by simp
  qed
qed

lemma match_point_wellformed:
  assumes "a \<noteq> []" "list_all is_token_char a" "ws \<noteq> []" "list_all is_space_char ws"
    "b \<noteq> []" "list_all is_token_char b"
  shows "match_point (''Point('' @ a @ ws @ b @ '')'' @ rest) = Some (a, b)"
proof -
  have hw: "\<not> is_token_char (hd (ws @ b @ '')'' @ rest))"
    using assms(3,4) space_not_token by (cases ws) auto
  have hb: "\<not> is_space_char (hd (b @ '')'' @ rest))"
    using assms(5,6) token_not_space by (cases b) auto
  have hp: "\<not> is_token_char (hd ('')'' @ rest))"
    using paren_not_token by simp
  have 1: "takeWhile is_token_char (a @ ws @ b @ '')'' @ rest) = a"
      "dropWhile is_token_char (a @ ws @ b @ '')'' @ rest) = ws @ b @ '')'' @ rest"
    using run_then_other[OF assms(2) _ hw] assms(3) by simp_all
  have 2: "takeWhile is_space_char (ws @ b @ '')'' @ rest) = ws"
      "dropWhile is_space_char (ws @ b @ '')'' @ rest) = b @ '')'' @ rest"
    using run_then_other[OF assms(4) _ hb] assms(5) by simp_all
  have 3: "takeWhile is_token_char (b @ '')'' @ rest) = b"
      "dropWhile is_token_char (b @ '')'' @ rest) = '')'' @ rest"
    using run_then_other[OF assms(6) _ hp] by simp_all
  have d: "drop 6 (''Point('' @ a @ ws @ b @ '')'' @ rest) = a @ ws @ b @ '')'' @ rest"
    by simp
  have s: "startswith (''Point('' @ a @ ws @ b @ '')'' @ rest) ''Point(''"
    by (simp add: startswith_def)
  show ?thesis
    unfolding match_point_def Let_def d 1 2 3 using s assms(1,3,5)
    by (simp add: startswith_def)
qed

lemma match_point_shape:
  assumes "match_point s = Some (g1, g2)"
  shows "\<exists>ws rest. s = ''Point('' @ g1 @ ws @ g2 @ '')'' @ rest \<and> ws \<noteq> [] \<and>
           list_all is_space_char ws"
proof -
  define r1 where "r1 = drop 6 s"
  define r2 where "r2 = dropWhile is_token_char r1"
  define ws where "ws = takeWhile is_space_char r2"
  define r3 where "r3 = dropWhile is_space_char r2"
  define r4 where "r4 = dropWhile is_token_char r3"
  from assms have m: "startswith s ''Point(''" "g1 = takeWhile is_token_char r1"
    "g2 = takeWhile is_token_char r3" "ws \<noteq> []" "startswith r4 '')''"
    unfolding match_point_def Let_def r1_def r2_def ws_def r3_def r4_def
    by (auto split: if_splits)
  have l6: "length ''Point('' = 6" by simp
  have t6: "take 6 s = ''Point(''" using m(1) unfolding startswith_def l6 .
  have "s = take 6 s @ drop 6 s" by simp
  then have s1: "s = ''Point('' @ r1" unfolding t6 r1_def .
  have s2: "r1 = g1 @ r2" unfolding m(2) r2_def by simp
  have s3: "r2 = ws @ r3" unfolding ws_def r3_def by simp
  have s4: "r3 = g2 @ r4" unfolding m(3) r4_def by simp
  have l1: "length '')'' = 1" by simp
  have t1: "take 1 r4 = '')''" using m(5) unfolding startswith_def l1 .
  have "r4 = take 1 r4 @ drop 1 r4" by simp
  then have s5: "r4 = '')'' @ drop 1 r4" unfolding t1 .
  have sp: "list_all is_space_char ws"
    unfolding ws_def list_all_iff by (auto dest: set_takeWhileD)
  have "s = ''Point('' @ g1 @ ws @ g2 @ '')'' @ drop 1 r4"
    using s1 s2 s3 s4 s5 by simp
  with m(4) sp show ?thesis by blast
qed

lemma parse_coordinates_pair:
  "parse_coordinates cs = (None, None) \<or> (\<exists>la lo. parse_coordinates cs = (Some la, Some lo))"
  by (auto simp: parse_coordinates_def split: option.splits)

lemma parse_coordinates_Some:
  "parse_coordinates cs = (Some la, Some lo) \<longleftrightarrow>
   (\<exists>s g1 g2. cs = Some s \<and> match_point s = Some (g1, g2) \<and>
      py_float g1 = Some lo \<and> py_float g2 = Some la)"
  by (auto simp: parse_coordinates_def match_point_def split: option.splits)

lemma parse_coordinates_shape:
  assumes "parse_coordinates cs = (Some la, Some lo)"
  shows "\<exists>a ws b rest. cs = Some (''Point('' @ a @ ws @ b @ '')'' @ rest) \<and>
        ws \<noteq> [] \<and> list_all is_space_char ws \<and> py_float a = Some lo \<and> py_float b = Some la"
proof -
  from assms obtain s g1 g2 where s: "cs = Some s" "match_point s = Some (g1, g2)"
    "py_float g1 = Some lo" "py_float g2 = Some la"
    unfolding parse_coordinates_Some by blast
  from match_point_shape[OF s(2)] obtain ws rest where
    "s = ''Point('' @ g1 @ ws @ g2 @ '')'' @ rest" "ws \<noteq> []" "list_all is_space_char ws"
    by blast
  with s show ?thesis by blast
qed

lemma parse_coordinates_wellformed:
  assumes "ws \<noteq> []" "list_all is_space_char ws" "py_float a = Some lo" "py_float b = Some la"
  shows "parse_coordinates (Some (''Point('' @ a @ ws @ b @ '')'' @ rest)) = (Some la, Some lo)"
proof -
  from py_float_token[OF assms(3)] py_float_token[OF assms(4)] assms(1,2)
  have "match_point (''Point('' @ a @ ws @ b @ '')'' @ rest) = Some (a, b)"
    by (intro match_point_wellformed) simp_all
  with assms(3,4) show ?thesis unfolding parse_coordinates_Some by blast
qed

lemma record_of_coordinates:
  "(lat (record_of row), lon (record_of row)) = parse_coordinates (get_value row ''coords'')"
  by (cases "parse_coordinates (get_value row ''coords'')") (simp add: record_of_def)

lemma record_of_paired: "lat (record_of row) = None \<longleftrightarrow> lon (record_of row) = None"
  using parse_coordinates_pair[of "get_value row ''coords''"]
    record_of_coordinates[of row, symmetric]
  by auto

lemma from_served_paired: "from_served r a \<Longrightarrow> lat a = None \<longleftrightarrow> lon a = None"
  unfolding from_served_def using record_of_paired by (elim exE conjE) simp

text \<open>
  C4 (as stated) fails in both directions. The label \<^verbatim>\<open>Q-\<close> matches the pattern
  \<^verbatim>\<open>^Q[0-9-]+$\<close>, and a row with this painter label is kept: without its hyphens the
  rest of the label is empty, and \<^verbatim>\<open>"".isdigit()\<close> is false. The label made of Q and
  the superscript two (U+00B2) does not match the pattern, and a row with it is skipped:
  \<^verbatim>\<open>str.isdigit\<close> holds of that character.
\<close>

theorem hyphen_only_label_kept:
  "spec_rejects [''painterLabel'' \<mapsto> [''value'' \<mapsto> ''Q-''],
                 ''paintingLabel'' \<mapsto> [''value'' \<mapsto> ''Mona Lisa''],
                 ''museumLabel'' \<mapsto> [''value'' \<mapsto> ''Louvre'']] \<and>
   \<not> skipped [''painterLabel'' \<mapsto> [''value'' \<mapsto> ''Q-''],
                 ''paintingLabel'' \<mapsto> [''value'' \<mapsto> ''Mona Lisa''],
                 ''museumLabel'' \<mapsto> [''value'' \<mapsto> ''Louvre'']] \<and>
   \<not> spec_rejects [''painterLabel'' \<mapsto> [''value'' \<mapsto> [CHR ''Q'', CHR 0xB2]],
                 ''paintingLabel'' \<mapsto> [''value'' \<mapsto> ''Mona Lisa''],
                 ''museumLabel'' \<mapsto> [''value'' \<mapsto> ''Louvre'']] \<and>
   skipped [''painterLabel'' \<mapsto> [''value'' \<mapsto> [CHR ''Q'', CHR 0xB2]],
                 ''paintingLabel'' \<mapsto> [''value'' \<mapsto> ''Mona Lisa''],
                 ''museumLabel'' \<mapsto> [''value'' \<mapsto> ''Louvre'']]"
  by (simp add: spec_rejects_def spec_placeholder_def skipped_def is_qid_def get_value_or_def
      get_value_def startswith_def isdigit_def remove_hyphens_def is_ascii_digit_def
      isdigit_char_def)

text \<open>
  C4 (amended): the loop skips a row if and only if one of the painter, painting and
  museum labels (a missing binding counts as the empty label) is empty, or is the letter Q
  followed by characters that are all digits or hyphens, at least one of them a digit,
  where a digit is a character of which \<^verbatim>\<open>str.isdigit\<close> holds. Every other row gives
  one record.
\<close>

theorem skipped_iff:
  "(skipped row \<longleftrightarrow>
     list_ex (\<lambda>l. l = [] \<or>
                (\<exists>rest. l = CHR ''Q'' # rest \<and>
                   list_all (\<lambda>c. isdigit_char c \<or> c = CHR ''-'') rest \<and> list_ex isdigit_char rest))
       [get_value_or row ''painterLabel'' '''', get_value_or row ''paintingLabel'' '''',
        get_value_or row ''museumLabel'' '''']) \<and>
   paintings_of [row] = (if skipped row then [] else [record_of row])"
proof -
  have "skipped row \<longleftrightarrow>
     list_ex (\<lambda>l. l = [] \<or>
                (\<exists>rest. l = CHR ''Q'' # rest \<and>
                   list_all (\<lambda>c. isdigit_char c \<or> c = CHR ''-'') rest \<and> list_ex isdigit_char rest))
       [get_value_or row ''painterLabel'' '''', get_value_or row ''paintingLabel'' '''',
        get_value_or row ''museumLabel'' '''']"
    unfolding skipped_def is_qid_iff list_ex_Cons_iff list_ex_Nil_iff by blast
  moreover have "paintings_of [row] = (if skipped row then [] else [record_of row])"
    by simp
  ultimately show ?thesis by (rule conjI)
qed

theorem skipped_iff_witness:
  "skipped [''painterLabel'' \<mapsto> [''value'' \<mapsto> ''Q42-7''],
            ''paintingLabel'' \<mapsto> [''value'' \<mapsto> ''Mona Lisa'']] \<and>
   paintings_of [[''painterLabel'' \<mapsto> [''value'' \<mapsto> ''Q42-7''],
            ''paintingLabel'' \<mapsto> [''value'' \<mapsto> ''Mona Lisa'']]] = []"
  using skipped_iff[of "[''painterLabel'' \<mapsto> [''value'' \<mapsto> ''Q42-7''],
            ''paintingLabel'' \<mapsto> [''value'' \<mapsto> ''Mona Lisa'']]"]
  by (simp add: get_value_or_def get_value_def isdigit_char_def is_ascii_digit_def)

text \<open>
  C5 (as stated) fails for malformed strings: \<^verbatim>\<open>re.match\<close> anchors the pattern at the
  start of the string only, so text after the closing parenthesis is ignored. The string
  \<^verbatim>\<open>Point(1 2)xyz\<close> is not of the form \<^verbatim>\<open>Point(<lon> <lat>)\<close>, and it is parsed
  to latitude 2 and longitude 1.
\<close>

theorem trailing_text_ignored:
  "\<not> spec_point_string ''Point(1 2)xyz'' \<and>
   parse_coordinates (Some ''Point(1 2)xyz'') = (Some 2, Some 1)"
proof -
  have "\<not> spec_point_string ''Point(1 2)xyz''"
  proof
    assume "spec_point_string ''Point(1 2)xyz''"
    then obtain a ws b where "''Point(1 2)xyz'' = (''Point('' @ a @ ws @ b) @ '')''"
      unfolding spec_point_string_def by auto
    then have "last ''Point(1 2)xyz'' = last ((''Point('' @ a @ ws @ b) @ '')'')"
      by (rule arg_cong)
    then show False by (simp only: last_snoc last.simps list.simps if_True if_False) simp
  qed
  moreover have "parse_coordinates (Some ''Point(1 2)xyz'') = (Some 2, Some 1)"
    by (simp add: parse_coordinates_def match_point_def py_float_def startswith_def
        is_ascii_digit_def digits_val_def is_token_char_def is_space_char_def)
  ultimately show ?thesis by simp
qed

text \<open>
  C5 (amended): \<^verbatim>\<open>_parse_coordinates\<close> returns coordinates exactly for the strings that
  begin with \<^verbatim>\<open>Point(\<close>, a first token, white space, a second token and a closing
  parenthesis, both tokens being numbers that \<^verbatim>\<open>float\<close> reads, whatever follows the
  parenthesis; it then returns the pair (lat, lon) with lat the second token and lon the
  first. For every other argument it returns \<^verbatim>\<open>(None, None)\<close>. It never raises: it is
  a total function with these two kinds of result.
\<close>

theorem parse_coordinates_iff:
  "(parse_coordinates cs = (Some la, Some lo) \<longleftrightarrow>
     (\<exists>a ws b rest. cs = Some (''Point('' @ a @ ws @ b @ '')'' @ rest) \<and>
        ws \<noteq> [] \<and> list_all is_space_char ws \<and> py_float a = Some lo \<and> py_float b = Some la)) \<and>
   (parse_coordinates cs = (None, None) \<or>
    (\<exists>la lo. parse_coordinates cs = (Some la, Some lo)))"
proof -
  have "parse_coordinates cs = (Some la, Some lo)"
    if "\<exists>a ws b rest. cs = Some (''Point('' @ a @ ws @ b @ '')'' @ rest) \<and>
        ws \<noteq> [] \<and> list_all is_space_char ws \<and> py_float a = Some lo \<and> py_float b = Some la"
    using that parse_coordinates_wellformed by (elim exE conjE) simp
  then show ?thesis
    using parse_coordinates_shape[of cs la lo] parse_coordinates_pair[of cs] by blast
qed

theorem parse_coordinates_iff_witness:
  "parse_coordinates (Some ''Point(2.3522 48.8566)'') = (Some 48.8566, Some 2.3522)"
proof -
  have "\<exists>a ws b rest. Some ''Point(2.3522 48.8566)'' = Some (''Point('' @ a @ ws @ b @ '')'' @ rest) \<and>
        ws \<noteq> [] \<and> list_all is_space_char ws \<and> py_float a = Some 2.3522 \<and>
        py_float b = Some 48.8566"
    by (intro exI[of _ "''2.3522''"] exI[of _ "'' ''"] exI[of _ "''48.8566''"] exI[of _ "[]"])
       (simp add: py_float_def startswith_def is_ascii_digit_def digits_val_def is_space_char_def)
  with parse_coordinates_iff[of "Some ''Point(2.3522 48.8566)''" "48.8566" "2.3522"]
  show ?thesis by blast
qed

section \<open>The Batch Paginator and the Orchestrator\<close>

lemma paintings_of_set:
  "a \<in> set (paintings_of rows) \<longleftrightarrow> (\<exists>row \<in> set rows. \<not> skipped row \<and> a = record_of row)"
  by (induction rows) auto

lemma paintings_of_empty: "paintings_of rows = [] \<longleftrightarrow> list_all skipped rows"
  by (induction rows) auto

lemma answer_Inr: "answer out = Inr rows \<Longrightarrow> \<exists>status. out = Response status (Envelope rows)"
  by (auto simp: answer_def split: outcome.splits body.splits)

lemma execute_sparql_Inr:
  assumes "execute_sparql r q m w = (Inr rows, w')"
  shows "\<exists>i status. r i q = Response status (Envelope rows)"
proof -
  from execute_sparql_cases[of m r w q] assms
  obtain j where "answer (r (requests w + j) q) = Inr rows" by auto
  from answer_Inr[OF this] show ?thesis by blast
qed

lemma paintings_of_from_served:
  assumes "r i q = Response status (Envelope rows)" "a \<in> set (paintings_of rows)"
  shows "from_served r a"
proof -
  from assms(2) obtain row where row: "row \<in> set rows" "\<not> skipped row" "a = record_of row"
    unfolding paintings_of_set by (elim bexE conjE)
  have "served r row"
    unfolding served_def using assms(1) row(1) by (intro exI conjI)
  with row(2,3) show ?thesis
    unfolding from_served_def by (intro exI conjI)
qed

lemma fetch_notable_Inr:
  assumes "fetch_notable_paintings_batch r offset limit w = (Inr batch, w')"
  shows "\<exists>rows. execute_sparql r (NotableQuery offset limit) MAX_RETRIES w = (Inr rows, w') \<and>
           batch = paintings_of rows"
  using assms
  by (auto simp: fetch_notable_paintings_batch_def split: prod.splits sum.splits)

lemma fetch_museum_Inr:
  assumes "fetch_museum_paintings_batch r offset limit w = (Inr batch, w')"
  shows "\<exists>rows. execute_sparql r (MuseumQuery offset limit) MAX_RETRIES w = (Inr rows, w') \<and>
           batch = paintings_of rows"
  using assms
  by (auto simp: fetch_museum_paintings_batch_def split: prod.splits sum.splits)

lemma fetch_notable_from_served:
  assumes "fetch_notable_paintings_batch r offset limit w = (Inr batch, w')" "a \<in> set batch"
  shows "from_served r a"
proof -
  from fetch_notable_Inr[OF assms(1)] obtain rows where
    e: "execute_sparql r (NotableQuery offset limit) MAX_RETRIES w = (Inr rows, w')"
    and b: "batch = paintings_of rows" by (elim exE conjE)
  from execute_sparql_Inr[OF e] obtain i status where
    rr: "r i (NotableQuery offset limit) = Response status (Envelope rows)" by (elim exE)
  have "a \<in> set (paintings_of rows)" using assms(2) b by simp
  with rr paintings_of_from_served[where r = r and i = i and q = "NotableQuery offset limit"
      and status = status and rows = rows and a = a]
  show ?thesis by simp
qed

lemma fetch_museum_from_served:
  assumes "fetch_museum_paintings_batch r offset limit w = (Inr batch, w')" "a \<in> set batch"
  shows "from_served r a"
proof -
  from fetch_museum_Inr[OF assms(1)] obtain rows where
    e: "execute_sparql r (MuseumQuery offset limit) MAX_RETRIES w = (Inr rows, w')"
    and b: "batch = paintings_of rows" by (elim exE conjE)
  from execute_sparql_Inr[OF e] obtain i status where
    rr: "r i (MuseumQuery offset limit) = Response status (Envelope rows)" by (elim exE)
  have "a \<in> set (paintings_of rows)" using assms(2) b by simp
  with rr paintings_of_from_served[where r = r and i = i and q = "MuseumQuery offset limit"
      and status = status and rows = rows and a = a]
  show ?thesis by simp
qed

lemma notable_loop_fail:
  "fetch_notable_paintings_batch r offset BATCH_SIZE w = (Inl e, w1) \<Longrightarrow>
   notable_loop r offset all_rows w = (all_rows, w1)"
  by (subst notable_loop.simps) simp

lemma notable_loop_empty:
  "fetch_notable_paintings_batch r offset BATCH_SIZE w = (Inr [], w1) \<Longrightarrow>
   notable_loop r offset all_rows w = (all_rows, w1)"
  by (subst notable_loop.simps) simp

lemma notable_loop_cap:
  "fetch_notable_paintings_batch r offset BATCH_SIZE w = (Inr batch, w1) \<Longrightarrow> batch \<noteq> [] \<Longrightarrow>
   2000 \<le> offset + BATCH_SIZE \<Longrightarrow>
   notable_loop r offset all_rows w = (all_rows @ batch, w1)"
  by (subst notable_loop.simps) simp

lemma notable_loop_next:
  "fetch_notable_paintings_batch r offset BATCH_SIZE w = (Inr batch, w1) \<Longrightarrow> batch \<noteq> [] \<Longrightarrow>
   \<not> 2000 \<le> offset + BATCH_SIZE \<Longrightarrow>
   notable_loop r offset all_rows w =
     notable_loop r (offset + BATCH_SIZE) (all_rows @ batch) (sleep RATE_LIMIT_SLEEP w1)"
  by (subst notable_loop.simps) simp

lemma notable_loop_invariant:
  "(\<And>offset w batch w' a.
      fetch_notable_paintings_batch r offset BATCH_SIZE w = (Inr batch, w') \<Longrightarrow> a \<in> set batch \<Longrightarrow> Q a) \<Longrightarrow>
   \<forall>a \<in> set all_rows. Q a \<Longrightarrow> \<forall>a \<in> set (fst (notable_loop r offset all_rows w)). Q a"
proof (induction r offset all_rows w rule: notable_loop.induct)
  case (1 r offset all_rows w)
  obtain res w1 where f0: "fetch_notable_paintings_batch r offset BATCH_SIZE w = (res, w1)"
    by (cases "fetch_notable_paintings_batch r offset BATCH_SIZE w")
  show ?case
  proof (cases res)
    case (Inl e)
    with f0 have "notable_loop r offset all_rows w = (all_rows, w1)"
      by (simp add: notable_loop_fail)
    with "1.prems"(2) show ?thesis by simp
  next
    case (Inr batch)
    with f0 have f: "fetch_notable_paintings_batch r offset BATCH_SIZE w = (Inr batch, w1)"
      by simp
    have ext: "\<forall>a \<in> set (all_rows @ batch). Q a"
      using "1.prems"(1)[OF f] "1.prems"(2) by auto
    consider (empty) "batch = []" | (cap) "batch \<noteq> []" "2000 \<le> offset + BATCH_SIZE"
      | (more) "batch \<noteq> []" "\<not> 2000 \<le> offset + BATCH_SIZE" by blast
    then show ?thesis
    proof cases
      case empty
      with f have "notable_loop r offset all_rows w = (all_rows, w1)"
        by (simp add: notable_loop_empty)
      with "1.prems"(2) show ?thesis by simp
    next
      case cap
      with f have "notable_loop r offset all_rows w = (all_rows @ batch, w1)"
        by (simp add: notable_loop_cap)
      with ext show ?thesis by simp
    next
      case more
      have "\<forall>a \<in> set (fst (notable_loop r (offset + BATCH_SIZE) (all_rows @ batch)
                (sleep RATE_LIMIT_SLEEP w1))). Q a"
        using "1.IH"[OF f[symmetric] refl more "1.prems"(1) ext] by simp
      then show ?thesis using notable_loop_next[OF f more] by simp
    qed
  qed
qed

lemma museum_loop_invariant:
  assumes step: "\<And>offset w batch w' a.
      fetch_museum_paintings_batch r offset BATCH_SIZE w = (Inr batch, w') \<Longrightarrow> a \<in> set batch \<Longrightarrow> Q a"
  shows "\<forall>a \<in> set all_rows. Q a \<Longrightarrow> \<forall>a \<in> set (fst (museum_loop r offsets all_rows w)). Q a"
proof (induction offsets arbitrary: all_rows w)
  case Nil
  then show ?case by simp
next
  case (Cons sample_offset offsets)
  obtain res w1 where f0: "fetch_museum_paintings_batch r sample_offset BATCH_SIZE w = (res, w1)"
    by (cases "fetch_museum_paintings_batch r sample_offset BATCH_SIZE w")
  show ?case
  proof (cases res)
    case (Inl e)
    with f0 Cons.IH[OF Cons.prems] show ?thesis by simp
  next
    case (Inr batch)
    with f0 have f: "fetch_museum_paintings_batch r sample_offset BATCH_SIZE w = (Inr batch, w1)"
      by simp
    have "\<forall>a \<in> set (if batch \<noteq> [] then all_rows @ batch else all_rows). Q a"
      using step[OF f] Cons.prems by auto
    from Cons.IH[OF this] f show ?thesis by simp
  qed
qed

lemma all_rows_invariant:
  assumes "\<And>offset w batch w' a.
      fetch_notable_paintings_batch r offset BATCH_SIZE w = (Inr batch, w') \<Longrightarrow> a \<in> set batch \<Longrightarrow> Q a"
    and "\<And>offset w batch w' a.
      fetch_museum_paintings_batch r offset BATCH_SIZE w = (Inr batch, w') \<Longrightarrow> a \<in> set batch \<Longrightarrow> Q a"
  shows "\<forall>a \<in> set (fst (all_rows_of r w)). Q a"
proof -
  obtain rows1 w1 where n: "notable_loop r 0 [] w = (rows1, w1)"
    by (cases "notable_loop r 0 [] w")
  have "\<forall>a \<in> set (fst (notable_loop r 0 [] w)). Q a"
  proof (rule notable_loop_invariant)
    show "\<And>offset w batch w' a.
      fetch_notable_paintings_batch r offset BATCH_SIZE w = (Inr batch, w') \<Longrightarrow> a \<in> set batch \<Longrightarrow> Q a"
      by (rule assms(1))
    show "\<forall>a \<in> set []. Q a" by simp
  qed
  with n have "\<forall>a \<in> set rows1. Q a" by simp
  then have r1: "\<forall>a \<in> set rows1. Q a" .
  have "\<forall>a \<in> set (fst (museum_loop r sample_offsets rows1 w1)). Q a"
  proof (rule museum_loop_invariant)
    show "\<And>offset w batch w' a.
      fetch_museum_paintings_batch r offset BATCH_SIZE w = (Inr batch, w') \<Longrightarrow> a \<in> set batch \<Longrightarrow> Q a"
      by (rule assms(2))
    show "\<forall>a \<in> set rows1. Q a" by (rule r1)
  qed
  with n show ?thesis by (simp add: all_rows_of_def)
qed

lemma all_rows_from_served: "\<forall>a \<in> set (fst (all_rows_of r w)). from_served r a"
  by (rule all_rows_invariant) (erule (1) fetch_notable_from_served, erule (1) fetch_museum_from_served)

text \<open>The equations that evaluate a run against a concrete remote.\<close>

lemmas loop_simps = execute_sparql_def sparql_loop.simps post_def sleep_def MAX_RETRIES_def
  RATE_LIMIT_RETRY_SLEEP_def RATE_LIMIT_SLEEP_def BATCH_SIZE_def
  fetch_notable_paintings_batch_def fetch_museum_paintings_batch_def
  start_def one_page_def two_pages_def by_strategy_def
  notable_loop.simps all_rows_of_def sample_offsets_def fetch_all_artworks_def
  identity_key_def artwork_schema_def

lemmas run_simps = loop_simps
  skipped_def record_of_def is_qid_def get_value_or_def get_value_def startswith_def
  isdigit_def remove_hyphens_def is_ascii_digit_def isdigit_char_def
  parse_coordinates_def match_point_def py_float_def digits_val_def is_token_char_def
  is_space_char_def
  row_far_def row_paris_def row_bare_def row_qid_def row_with_def

section \<open>The Deduplicator\<close>

lemma keep_first_subset: "set (keep_first xs) \<subseteq> set xs"
  by (induction xs rule: keep_first.induct) auto

lemma keep_first_keys: "identity_key ` set (keep_first xs) = identity_key ` set xs"
proof (induction xs rule: keep_first.induct)
  case 1
  show ?case by simp
next
  case (2 x xs)
  have "identity_key ` set (x # xs) =
      insert (identity_key x)
        (identity_key ` set (filter (\<lambda>y. identity_key y \<noteq> identity_key x) xs))"
    by auto
  with 2 show ?case by simp
qed

lemma keep_first_distinct: "distinct (map identity_key (keep_first xs))"
proof (induction xs rule: keep_first.induct)
  case 1
  show ?case by simp
next
  case (2 x xs)
  have "identity_key x \<notin> identity_key ` set (filter (\<lambda>y. identity_key y \<noteq> identity_key x) xs)"
    by auto
  then have "identity_key x \<notin>
      identity_key ` set (keep_first (filter (\<lambda>y. identity_key y \<noteq> identity_key x) xs))"
    unfolding keep_first_keys .
  with 2 show ?case by simp
qed

lemma find_filter_same:
  "(\<And>y. Q y \<Longrightarrow> P y) \<Longrightarrow> find Q (filter P xs) = find Q xs"
  by (induction xs) auto

lemma find_in_set: "find Q xs = Some a \<Longrightarrow> a \<in> set xs \<and> Q a"
  by (induction xs) (auto split: if_splits)

lemma find_append_first:
  "b \<in> set xs \<Longrightarrow> Q b \<Longrightarrow> find Q (xs @ ys) = Some a \<Longrightarrow> a \<in> set xs"
  by (induction xs) (auto split: if_splits)

lemma keep_first_find:
  "a \<in> set (keep_first xs) \<longleftrightarrow> find (\<lambda>y. identity_key y = identity_key a) xs = Some a"
proof (induction xs rule: keep_first.induct)
  case 1
  show ?case by simp
next
  case (2 x xs)
  let ?Q = "\<lambda>y. identity_key y = identity_key a"
  let ?P = "\<lambda>y. identity_key y \<noteq> identity_key x"
  show ?case
  proof (cases "identity_key x = identity_key a")
    case True
    have "\<not> find ?Q (filter ?P xs) = Some a"
    proof
      assume "find ?Q (filter ?P xs) = Some a"
      from find_in_set[OF this] have "?P a" by simp
      with True show False by simp
    qed
    with 2 True show ?thesis by auto
  next
    case False
    then have "find ?Q (filter ?P xs) = find ?Q xs"
      by (intro find_filter_same) auto
    with 2 False show ?thesis by auto
  qed
qed

lemma museum_loop_prefix: "\<exists>rows2. fst (museum_loop r offsets all_rows w) = all_rows @ rows2"
proof (induction offsets arbitrary: all_rows w)
  case Nil
  show ?case by simp
next
  case (Cons sample_offset offsets)
  obtain res w1 where f: "fetch_museum_paintings_batch r sample_offset BATCH_SIZE w = (res, w1)"
    by (cases "fetch_museum_paintings_batch r sample_offset BATCH_SIZE w")
  show ?case
  proof (cases res)
    case (Inl e)
    with f Cons.IH[of all_rows w1] show ?thesis by simp
  next
    case (Inr batch)
    from Cons.IH[of "if batch \<noteq> [] then all_rows @ batch else all_rows" "sleep RATE_LIMIT_SLEEP w1"]
    obtain rows2 where "fst (museum_loop r offsets
        (if batch \<noteq> [] then all_rows @ batch else all_rows) (sleep RATE_LIMIT_SLEEP w1)) =
        (if batch \<noteq> [] then all_rows @ batch else all_rows) @ rows2"
      by (elim exE)
    with f Inr have "fst (museum_loop r (sample_offset # offsets) all_rows w) =
        all_rows @ ((if batch \<noteq> [] then batch else []) @ rows2)"
      by simp
    then show ?thesis by (rule exI)
  qed
qed

lemma all_rows_strategy_order:
  "\<exists>rows2. fst (all_rows_of r w) = fst (notable_loop r 0 [] w) @ rows2"
proof (cases "notable_loop r 0 [] w")
  case (Pair rows1 w1)
  with museum_loop_prefix[of r sample_offsets rows1 w1] show ?thesis
    by (simp add: all_rows_of_def)
qed

lemma dataset_rows:
  "df_rows (fst (fetch_all_artworks keep_first r w)) = keep_first (fst (all_rows_of r w))"
  by (cases "all_rows_of r w") (simp add: fetch_all_artworks_def)

lemma dataset_from_served:
  assumes "a \<in> set (df_rows (fst (fetch_all_artworks keep_first r w)))"
  shows "from_served r a"
proof -
  from assms keep_first_subset[of "fst (all_rows_of r w)"]
  have "a \<in> set (fst (all_rows_of r w))" unfolding dataset_rows by (rule subsetD[rotated])
  with all_rows_from_served[of r w] show ?thesis by (rule bspec)
qed

section \<open>Geometries with integer tokens\<close>

lemma digit_not_hyphen: "is_ascii_digit c \<Longrightarrow> c \<noteq> CHR ''-''"
  by (auto simp: is_ascii_digit_def)

lemma digit_not_point: "is_ascii_digit c \<Longrightarrow> c \<noteq> CHR ''.''"
  by (auto simp: is_ascii_digit_def)

lemma py_float_digits:
  assumes "t \<noteq> []" "list_all is_ascii_digit t"
  shows "py_float t = Some (real (digits_val t))"
proof -
  from assms obtain c u where t: "t = c # u" by (cases t) auto
  with assms(2) have "c \<noteq> CHR ''-''" by (simp add: digit_not_hyphen)
  with t have neg: "\<not> startswith t ''-''" by (simp add: startswith_def)
  from assms(2) have "\<forall>c \<in> set t. c \<noteq> CHR ''.''"
    by (auto simp: list_all_iff digit_not_point)
  then have tw: "takeWhile (\<lambda>c. c \<noteq> CHR ''.'') t = t" "dropWhile (\<lambda>c. c \<noteq> CHR ''.'') t = []"
    by simp_all
  have "py_float t =
     (if list_all is_ascii_digit t \<and> list_all is_ascii_digit [] \<and> (t \<noteq> [] \<or> [] \<noteq> [])
      then Some (1 * (real (digits_val t) + real (digits_val []) / 10 ^ length ([] :: string)))
      else None)"
    unfolding py_float_def Let_def if_not_P[OF neg] tw by simp
  with assms show ?thesis by (simp add: digits_val_def)
qed

lemma parse_coordinates_digits:
  assumes "t1 \<noteq> []" "list_all is_ascii_digit t1" "t2 \<noteq> []" "list_all is_ascii_digit t2"
  shows "parse_coordinates (Some (''Point('' @ t1 @ '' '' @ t2 @ '')'')) =
         (Some (real (digits_val t2)), Some (real (digits_val t1)))"
proof -
  have "parse_coordinates (Some (''Point('' @ t1 @ '' '' @ t2 @ '')'' @ [])) =
         (Some (real (digits_val t2)), Some (real (digits_val t1)))"
    by (rule parse_coordinates_wellformed[OF _ _ py_float_digits[OF assms(1,2)]
          py_float_digits[OF assms(3,4)]]) (simp_all add: is_space_char_def)
  then show ?thesis by simp
qed

lemma not_skipped_row_with: "\<not> skipped (row_with g)"
  by (simp add: row_with_def skipped_def is_qid_def get_value_or_def get_value_def
      startswith_def)

lemma record_of_row_with:
  "record_of (row_with g) =
     (case parse_coordinates (Some g) of (la, lo) \<Rightarrow>
       \<lparr>painter = ''Monet'', painting = ''Impression'', museum = ''Marmottan'',
        city = ''Unknown'', country = ''Unknown'', lat = la, lon = lo, wikipedia_url = ''''\<rparr>)"
  by (simp add: row_with_def record_of_def get_value_or_def get_value_def split: prod.splits)

lemma one_page_rows:
  "\<not> skipped row \<Longrightarrow>
   df_rows (fst (fetch_all_artworks keep_first (one_page [row]) start)) = [record_of row]"
  by (simp add: loop_simps)

lemma one_page_row_with:
  assumes "t1 \<noteq> []" "list_all is_ascii_digit t1" "t2 \<noteq> []" "list_all is_ascii_digit t2"
  shows "df_rows (fst (fetch_all_artworks keep_first
            (one_page [row_with (''Point('' @ t1 @ '' '' @ t2 @ '')'')]) start)) =
         [\<lparr>painter = ''Monet'', painting = ''Impression'', museum = ''Marmottan'',
           city = ''Unknown'', country = ''Unknown'', lat = Some (real (digits_val t2)),
           lon = Some (real (digits_val t1)), wikipedia_url = ''''\<rparr>]"
  unfolding one_page_rows[OF not_skipped_row_with] record_of_row_with
    parse_coordinates_digits[OF assms]
  by simp

text \<open>
  C10: in every record that \<^verbatim>\<open>fetch_notable_paintings_batch\<close> or
  \<^verbatim>\<open>fetch_museum_paintings_batch\<close> returns, and so in every record of the working
  set of both strategies, \<^verbatim>\<open>lat\<close> is absent if and only if \<^verbatim>\<open>lon\<close> is absent.
\<close>

theorem coordinates_paired:
  "(fetch_notable_paintings_batch r offset limit w = (Inr batch, w') \<longrightarrow>
      (\<forall>a \<in> set batch. lat a = None \<longleftrightarrow> lon a = None)) \<and>
   (fetch_museum_paintings_batch r offset limit w = (Inr batch, w') \<longrightarrow>
      (\<forall>a \<in> set batch. lat a = None \<longleftrightarrow> lon a = None)) \<and>
   (\<forall>a \<in> set (fst (all_rows_of r w)). lat a = None \<longleftrightarrow> lon a = None)"
proof (intro conjI impI ballI)
  fix a assume "fetch_notable_paintings_batch r offset limit w = (Inr batch, w')" "a \<in> set batch"
  then have "from_served r a" by (rule fetch_notable_from_served)
  then show "lat a = None \<longleftrightarrow> lon a = None" by (rule from_served_paired)
next
  fix a assume "fetch_museum_paintings_batch r offset limit w = (Inr batch, w')" "a \<in> set batch"
  then have "from_served r a" by (rule fetch_museum_from_served)
  then show "lat a = None \<longleftrightarrow> lon a = None" by (rule from_served_paired)
next
  fix a assume "a \<in> set (fst (all_rows_of r w))"
  with all_rows_from_served[of r w] have "from_served r a" by (rule bspec)
  then show "lat a = None \<longleftrightarrow> lon a = None" by (rule from_served_paired)
qed

theorem coordinates_paired_witness:
  "fetch_notable_paintings_batch (one_page [row_paris, row_bare]) 0 200 start =
     (Inr [\<lparr>painter = ''Monet'', painting = ''Impression'', museum = ''Marmottan'',
            city = ''Unknown'', country = ''France'', lat = Some 48.86, lon = Some 2.27,
            wikipedia_url = ''''\<rparr>,
           \<lparr>painter = ''Monet'', painting = ''Impression'', museum = ''Marmottan'',
            city = ''Unknown'', country = ''Unknown'', lat = None, lon = None,
            wikipedia_url = ''''\<rparr>],
      \<lparr>requests = 1, sleeps = []\<rparr>) \<and>
   list_all (\<lambda>a. lat a = None \<longleftrightarrow> lon a = None)
     [\<lparr>painter = ''Monet'', painting = ''Impression'', museum = ''Marmottan'',
            city = ''Unknown'', country = ''France'', lat = Some 48.86, lon = Some 2.27,
            wikipedia_url = ''''\<rparr>,
           \<lparr>painter = ''Monet'', painting = ''Impression'', museum = ''Marmottan'',
            city = ''Unknown'', country = ''Unknown'', lat = None, lon = None,
            wikipedia_url = ''''\<rparr>]"
proof -
  let ?batch = "[\<lparr>painter = ''Monet'', painting = ''Impression'', museum = ''Marmottan'',
            city = ''Unknown'', country = ''France'', lat = Some 48.86, lon = Some 2.27,
            wikipedia_url = ''''\<rparr>,
           \<lparr>painter = ''Monet'', painting = ''Impression'', museum = ''Marmottan'',
            city = ''Unknown'', country = ''Unknown'', lat = None, lon = None,
            wikipedia_url = ''''\<rparr>]"
  have e: "fetch_notable_paintings_batch (one_page [row_paris, row_bare]) 0 200 start =
     (Inr ?batch, \<lparr>requests = 1, sleeps = []\<rparr>)"
    by (simp add: run_simps)
  from coordinates_paired[of "one_page [row_paris, row_bare]" 0 200 start ?batch
      "\<lparr>requests = 1, sleeps = []\<rparr>", THEN conjunct1, rule_format, OF e]
  have "list_all (\<lambda>a. lat a = None \<longleftrightarrow> lon a = None) ?batch"
    unfolding list_all_iff by blast
  with e show ?thesis by (rule conjI)
qed

text \<open>
  C6 (as stated) fails: nothing bounds the coordinates. When the remote serves a row whose
  geometry is \<^verbatim>\<open>Point(200 100)\<close>, the harvested dataset holds a record with latitude
  100 and longitude 200.
\<close>

theorem coordinates_out_of_range:
  "df_rows (fst (fetch_all_artworks keep_first (one_page [row_far]) start)) =
     [\<lparr>painter = ''Monet'', painting = ''Impression'', museum = ''Marmottan'',
       city = ''Unknown'', country = ''Unknown'', lat = Some 100, lon = Some 200,
       wikipedia_url = ''''\<rparr>] \<and>
   \<not> (100 :: real) \<le> 90 \<and> \<not> (200 :: real) \<le> 180"
  by (simp add: run_simps)

text \<open>
  C6 (amended): every record of the harvested dataset is made from a row that the remote
  served and the loop did not skip, and its \<^verbatim>\<open>lat\<close> and \<^verbatim>\<open>lon\<close> are the pair that
  \<^verbatim>\<open>_parse_coordinates\<close> returns for the geometry of that row. Whenever \<^verbatim>\<open>lat\<close> is
  present, the geometry begins with \<^verbatim>\<open>Point(\<close>, a first token, white space, a second
  token and a closing parenthesis; \<^verbatim>\<open>lat\<close> is \<^verbatim>\<open>float\<close> of the second token and
  \<^verbatim>\<open>lon\<close> is \<^verbatim>\<open>float\<close> of the first. No range is enforced: when the one row that the
  remote serves has the geometry \<^verbatim>\<open>Point(t1 t2)\<close>, where \<open>t1\<close> and \<open>t2\<close> are non-empty
  strings of the digits 0 to 9 that write integers below \<^verbatim>\<open>2**53\<close> (\<^verbatim>\<open>float\<close> reads
  these exactly), the dataset is the one record of that row, with \<^verbatim>\<open>lat\<close> the integer
  that \<open>t2\<close> writes and \<^verbatim>\<open>lon\<close> the integer that \<open>t1\<close> writes, however large.
\<close>

theorem coordinates_from_upstream:
  "(a \<in> set (df_rows (fst (fetch_all_artworks keep_first r w))) \<longrightarrow>
      (\<exists>row. served r row \<and> \<not> skipped row \<and> a = record_of row \<and>
           (lat a, lon a) = parse_coordinates (get_value row ''coords'') \<and>
           (\<forall>la. lat a = Some la \<longrightarrow>
              (\<exists>t1 ws t2 rest.
                 get_value row ''coords'' = Some (''Point('' @ t1 @ ws @ t2 @ '')'' @ rest) \<and>
                 ws \<noteq> [] \<and> list_all is_space_char ws \<and>
                 py_float t1 = lon a \<and> py_float t2 = Some la)))) \<and>
   (t1 \<noteq> [] \<and> list_all is_ascii_digit t1 \<and> digits_val t1 < 2 ^ 53 \<and>
    t2 \<noteq> [] \<and> list_all is_ascii_digit t2 \<and> digits_val t2 < 2 ^ 53 \<longrightarrow>
      df_rows (fst (fetch_all_artworks keep_first
          (one_page [row_with (''Point('' @ t1 @ '' '' @ t2 @ '')'')]) start)) =
        [\<lparr>painter = ''Monet'', painting = ''Impression'', museum = ''Marmottan'',
          city = ''Unknown'', country = ''Unknown'', lat = Some (real (digits_val t2)),
          lon = Some (real (digits_val t1)), wikipedia_url = ''''\<rparr>])"
proof (intro conjI impI)
  assume m: "a \<in> set (df_rows (fst (fetch_all_artworks keep_first r w)))"
  from dataset_from_served[OF m] obtain row where
    row: "served r row" "\<not> skipped row" "a = record_of row"
    unfolding from_served_def by (elim exE conjE)
  have pc: "(lat a, lon a) = parse_coordinates (get_value row ''coords'')"
    unfolding row(3) by (rule record_of_coordinates)
  have tok: "\<exists>t1 ws t2 rest.
                 get_value row ''coords'' = Some (''Point('' @ t1 @ ws @ t2 @ '')'' @ rest) \<and>
                 ws \<noteq> [] \<and> list_all is_space_char ws \<and>
                 py_float t1 = lon a \<and> py_float t2 = Some la"
    if la: "lat a = Some la" for la
  proof -
    from from_served_paired[OF dataset_from_served[OF m]] la
    obtain lo where lo: "lon a = Some lo" by auto
    with pc la have "parse_coordinates (get_value row ''coords'') = (Some la, Some lo)"
      by simp
    from parse_coordinates_shape[OF this] lo show ?thesis by simp
  qed
  from row pc tok
  show "\<exists>row. served r row \<and> \<not> skipped row \<and> a = record_of row \<and>
           (lat a, lon a) = parse_coordinates (get_value row ''coords'') \<and>
           (\<forall>la. lat a = Some la \<longrightarrow>
              (\<exists>t1 ws t2 rest.
                 get_value row ''coords'' = Some (''Point('' @ t1 @ ws @ t2 @ '')'' @ rest) \<and>
                 ws \<noteq> [] \<and> list_all is_space_char ws \<and>
                 py_float t1 = lon a \<and> py_float t2 = Some la))"
    by (intro exI[of _ row] conjI allI impI)
next
  assume "t1 \<noteq> [] \<and> list_all is_ascii_digit t1 \<and> digits_val t1 < 2 ^ 53 \<and>
    t2 \<noteq> [] \<and> list_all is_ascii_digit t2 \<and> digits_val t2 < 2 ^ 53"
  then have "t1 \<noteq> []" "list_all is_ascii_digit t1" "t2 \<noteq> []" "list_all is_ascii_digit t2"
    by simp_all
  then show "df_rows (fst (fetch_all_artworks keep_first
          (one_page [row_with (''Point('' @ t1 @ '' '' @ t2 @ '')'')]) start)) =
        [\<lparr>painter = ''Monet'', painting = ''Impression'', museum = ''Marmottan'',
          city = ''Unknown'', country = ''Unknown'', lat = Some (real (digits_val t2)),
          lon = Some (real (digits_val t1)), wikipedia_url = ''''\<rparr>]"
    by (rule one_page_row_with)
qed

theorem coordinates_from_upstream_witness:
  "df_rows (fst (fetch_all_artworks keep_first (one_page [row_with ''Point(181 91)'']) start)) =
     [\<lparr>painter = ''Monet'', painting = ''Impression'', museum = ''Marmottan'',
       city = ''Unknown'', country = ''Unknown'', lat = Some 91, lon = Some 181,
       wikipedia_url = ''''\<rparr>] \<and>
   (\<exists>row. served (one_page [row_with ''Point(181 91)'']) row \<and> \<not> skipped row \<and>
      (Some 91, Some 181) = parse_coordinates (get_value row ''coords'') \<and>
      (\<exists>t1 ws t2 rest.
         get_value row ''coords'' = Some (''Point('' @ t1 @ ws @ t2 @ '')'' @ rest) \<and>
         py_float t1 = Some 181 \<and> py_float t2 = Some 91))"
proof -
  let ?a = "\<lparr>painter = ''Monet'', painting = ''Impression'', museum = ''Marmottan'',
       city = ''Unknown'', country = ''Unknown'', lat = Some 91, lon = Some 181,
       wikipedia_url = ''''\<rparr>"
  let ?r = "one_page [row_with ''Point(181 91)'']"
  note t = coordinates_from_upstream[where a = ?a and r = ?r and w = start
      and ?t1.0 = "''181''" and ?t2.0 = "''91''"]
  have e: "df_rows (fst (fetch_all_artworks keep_first ?r start)) = [?a]"
    using t[THEN conjunct2] by (simp add: is_ascii_digit_def digits_val_def)
  then have m: "?a \<in> set (df_rows (fst (fetch_all_artworks keep_first ?r start)))"
    by simp
  from t[THEN conjunct1, THEN mp, OF m]
  obtain row where row: "served ?r row" "\<not> skipped row"
    "(lat ?a, lon ?a) = parse_coordinates (get_value row ''coords'')"
    and tok: "\<forall>la. lat ?a = Some la \<longrightarrow>
              (\<exists>t1 ws t2 rest.
                 get_value row ''coords'' = Some (''Point('' @ t1 @ ws @ t2 @ '')'' @ rest) \<and>
                 ws \<noteq> [] \<and> list_all is_space_char ws \<and>
                 py_float t1 = lon ?a \<and> py_float t2 = Some la)"
    by (elim exE conjE)
  from tok[THEN spec, of 91] obtain t1 ws t2 rest where
    "get_value row ''coords'' = Some (''Point('' @ t1 @ ws @ t2 @ '')'' @ rest)"
    "py_float t1 = Some 181" "py_float t2 = Some 91"
    by auto
  then have "\<exists>t1 ws t2 rest.
         get_value row ''coords'' = Some (''Point('' @ t1 @ ws @ t2 @ '')'' @ rest) \<and>
         py_float t1 = Some 181 \<and> py_float t2 = Some 91"
    by (intro exI conjI)
  with row have "\<exists>row. served ?r row \<and> \<not> skipped row \<and>
      (Some 91, Some 181) = parse_coordinates (get_value row ''coords'') \<and>
      (\<exists>t1 ws t2 rest.
         get_value row ''coords'' = Some (''Point('' @ t1 @ ws @ t2 @ '')'' @ rest) \<and>
         py_float t1 = Some 181 \<and> py_float t2 = Some 91)"
    by (intro exI[of _ row]) simp
  with e show ?thesis by (rule conjI)
qed

text \<open>
  C2 (as stated) fails: the loop of the notable-works strategy tests the batch that
  \<^verbatim>\<open>fetch_notable_paintings_batch\<close> returns, which holds the records left after the
  skipped rows. The first page below has one raw row, which the loop skips; pagination
  stops after this one request, and the page at offset 200 is never asked for.
\<close>

theorem filtered_page_stops_pagination:
  "execute_sparql (two_pages [row_qid] [row_paris]) (NotableQuery 0 BATCH_SIZE) MAX_RETRIES start =
     (Inr [row_qid], \<lparr>requests = 1, sleeps = []\<rparr>) \<and>
   notable_loop (two_pages [row_qid] [row_paris]) 0 [] start =
     ([], \<lparr>requests = 1, sleeps = []\<rparr>)"
  by (simp add: run_simps)

text \<open>
  C2 (amended): when the query of a page of the notable-works strategy returns its raw
  rows, pagination stops there if every raw row is skipped by the loop (in particular if
  there is no raw row); if some row is kept, the records of the page are added, and
  pagination goes on to the next offset, after a sleep of 2 seconds, unless that offset
  reaches the cap of 2000. The collection-sampling strategy never stops on a page: it
  adds the records of the page, sleeps, and goes on to its next sample offset.
\<close>

theorem pagination_step:
  "(execute_sparql r (NotableQuery offset BATCH_SIZE) MAX_RETRIES w = (Inr raw, w1) \<longrightarrow>
      notable_loop r offset all_rows w =
        (if list_all skipped raw then (all_rows, w1)
         else if 2000 \<le> offset + BATCH_SIZE then (all_rows @ paintings_of raw, w1)
         else notable_loop r (offset + BATCH_SIZE) (all_rows @ paintings_of raw)
                (sleep RATE_LIMIT_SLEEP w1))) \<and>
   (execute_sparql r (MuseumQuery sample_offset BATCH_SIZE) MAX_RETRIES w = (Inr raw, w1) \<longrightarrow>
      museum_loop r (sample_offset # offsets) all_rows w =
        museum_loop r offsets (all_rows @ paintings_of raw) (sleep RATE_LIMIT_SLEEP w1))"
proof (intro conjI impI)
  assume e: "execute_sparql r (NotableQuery offset BATCH_SIZE) MAX_RETRIES w = (Inr raw, w1)"
  then have f: "fetch_notable_paintings_batch r offset BATCH_SIZE w = (Inr (paintings_of raw), w1)"
    by (simp add: fetch_notable_paintings_batch_def)
  consider (empty) "paintings_of raw = []"
    | (cap) "paintings_of raw \<noteq> []" "2000 \<le> offset + BATCH_SIZE"
    | (more) "paintings_of raw \<noteq> []" "\<not> 2000 \<le> offset + BATCH_SIZE" by blast
  then show "notable_loop r offset all_rows w =
        (if list_all skipped raw then (all_rows, w1)
         else if 2000 \<le> offset + BATCH_SIZE then (all_rows @ paintings_of raw, w1)
         else notable_loop r (offset + BATCH_SIZE) (all_rows @ paintings_of raw)
                (sleep RATE_LIMIT_SLEEP w1))"
  proof cases
    case empty
    with f have "notable_loop r offset all_rows w = (all_rows, w1)"
      by (simp add: notable_loop_empty)
    with empty show ?thesis by (simp add: paintings_of_empty)
  next
    case cap
    from notable_loop_cap[OF f cap] cap show ?thesis by (simp add: paintings_of_empty)
  next
    case more
    from notable_loop_next[OF f more] more show ?thesis by (simp add: paintings_of_empty)
  qed
next
  assume "execute_sparql r (MuseumQuery sample_offset BATCH_SIZE) MAX_RETRIES w = (Inr raw, w1)"
  then have "fetch_museum_paintings_batch r sample_offset BATCH_SIZE w = (Inr (paintings_of raw), w1)"
    by (simp add: fetch_museum_paintings_batch_def)
  then show "museum_loop r (sample_offset # offsets) all_rows w =
        museum_loop r offsets (all_rows @ paintings_of raw) (sleep RATE_LIMIT_SLEEP w1)"
    by simp
qed

theorem pagination_step_witness:
  "execute_sparql (one_page [row_qid, row_bare]) (NotableQuery 0 BATCH_SIZE) MAX_RETRIES start =
     (Inr [row_qid, row_bare], \<lparr>requests = 1, sleeps = []\<rparr>) \<and>
   notable_loop (one_page [row_qid, row_bare]) 0 [] start =
     notable_loop (one_page [row_qid, row_bare]) 200
       [\<lparr>painter = ''Monet'', painting = ''Impression'', museum = ''Marmottan'',
         city = ''Unknown'', country = ''Unknown'', lat = None, lon = None,
         wikipedia_url = ''''\<rparr>]
       \<lparr>requests = 1, sleeps = [2]\<rparr>"
proof -
  have e: "execute_sparql (one_page [row_qid, row_bare]) (NotableQuery 0 BATCH_SIZE) MAX_RETRIES start =
     (Inr [row_qid, row_bare], \<lparr>requests = 1, sleeps = []\<rparr>)"
    by (simp add: execute_sparql_def sparql_loop.simps post_def MAX_RETRIES_def start_def
        one_page_def)
  have s: "skipped row_qid" "\<not> skipped row_bare"
    by (simp_all add: run_simps)
  have p: "record_of row_bare =
      \<lparr>painter = ''Monet'', painting = ''Impression'', museum = ''Marmottan'',
         city = ''Unknown'', country = ''Unknown'', lat = None, lon = None,
         wikipedia_url = ''''\<rparr>"
    by (simp add: run_simps)
  from pagination_step[of "one_page [row_qid, row_bare]" 0 start "[row_qid, row_bare]"
      "\<lparr>requests = 1, sleeps = []\<rparr>" "[]", THEN conjunct1, rule_format, OF e]
  have "notable_loop (one_page [row_qid, row_bare]) 0 [] start =
     notable_loop (one_page [row_qid, row_bare]) 200 [record_of row_bare]
       \<lparr>requests = 1, sleeps = [2]\<rparr>"
    using s by (simp add: BATCH_SIZE_def RATE_LIMIT_SLEEP_def sleep_def)
  with e show ?thesis unfolding p by (rule conjI)
qed

text \<open>
  C9: when the working set of both strategies is empty, \<^verbatim>\<open>fetch_all_artworks\<close> returns
  (it does not raise) a frame with no rows and the eight columns painter, painting,
  museum, city, country, lat, lon and wikipedia_url, whatever the deduplication function;
  the run has posted and slept what the two strategies did. The working set is empty
  whenever the remote serves no row that the loop keeps: when every request fails, when
  every page is empty, and when every served row is skipped.
\<close>

theorem empty_harvest:
  "(fst (all_rows_of r w) = [] \<longrightarrow>
      fetch_all_artworks uniq r w =
        (\<lparr>df_schema =
            [(''painter'', Utf8), (''painting'', Utf8), (''museum'', Utf8), (''city'', Utf8),
             (''country'', Utf8), (''lat'', Float64), (''lon'', Float64),
             (''wikipedia_url'', Utf8)],
          df_rows = []\<rparr>,
         snd (all_rows_of r w))) \<and>
   ((\<forall>row. served r row \<longrightarrow> skipped row) \<longrightarrow> fst (all_rows_of r w) = [])"
proof (intro conjI impI)
  assume "fst (all_rows_of r w) = []"
  then show "fetch_all_artworks uniq r w =
        (\<lparr>df_schema =
            [(''painter'', Utf8), (''painting'', Utf8), (''museum'', Utf8), (''city'', Utf8),
             (''country'', Utf8), (''lat'', Float64), (''lon'', Float64),
             (''wikipedia_url'', Utf8)],
          df_rows = []\<rparr>,
         snd (all_rows_of r w))"
    by (cases "all_rows_of r w") (simp add: fetch_all_artworks_def artwork_schema_def)
next
  assume none: "\<forall>row. served r row \<longrightarrow> skipped row"
  show "fst (all_rows_of r w) = []"
  proof (rule ccontr)
    assume "fst (all_rows_of r w) \<noteq> []"
    then obtain a where "a \<in> set (fst (all_rows_of r w))"
      by (cases "fst (all_rows_of r w)") auto
    with all_rows_from_served[of r w] have "from_served r a" by (rule bspec)
    then obtain row where "served r row" "\<not> skipped row"
      unfolding from_served_def by (elim exE conjE)
    with none show False by simp
  qed
qed

theorem empty_harvest_witness:
  "fst (all_rows_of (\<lambda>i q. Response 200 (Envelope [])) start) = [] \<and>
   fetch_all_artworks keep_first (\<lambda>i q. Response 200 (Envelope [])) start =
     (\<lparr>df_schema =
         [(''painter'', Utf8), (''painting'', Utf8), (''museum'', Utf8), (''city'', Utf8),
          (''country'', Utf8), (''lat'', Float64), (''lon'', Float64),
          (''wikipedia_url'', Utf8)],
       df_rows = []\<rparr>,
      \<lparr>requests = 7, sleeps = [2, 2, 2, 2, 2, 2]\<rparr>)"
proof -
  have none: "\<forall>row. served (\<lambda>i q. Response 200 (Envelope [])) row \<longrightarrow> skipped row"
    by (simp add: served_def)
  have e: "fst (all_rows_of (\<lambda>i q. Response 200 (Envelope [])) start) = []"
    using empty_harvest[of "\<lambda>i q. Response 200 (Envelope [])" start keep_first,
        THEN conjunct2, THEN mp, OF none] .
  have a: "snd (all_rows_of (\<lambda>i q. Response 200 (Envelope [])) start) =
      \<lparr>requests = 7, sleeps = [2, 2, 2, 2, 2, 2]\<rparr>"
    by (simp add: run_simps)
  from empty_harvest[of "\<lambda>i q. Response 200 (Envelope [])" start keep_first,
        THEN conjunct1, THEN mp, OF e] a e
  show ?thesis by simp
qed

text \<open>
  C3: for every sequence of records, deduplication keeps, of the records with one
  identity key (painter, painting, museum), exactly the one that comes first in the
  sequence, as it is: a record is in the result if and only if it is the first record of
  the sequence with its key, so that every key of the sequence has one record in the
  result and no two records of the result share a key. The dataset is the deduplicated
  working set, and the working set holds the records of strategy 1 before those of
  strategy 2: when strategy 1 has a record of some key, the record of the dataset with
  that key is a record of strategy 1.
\<close>

theorem dedupe_keeps_earliest:
  "distinct (map identity_key (keep_first xs)) \<and>
   identity_key ` set (keep_first xs) = identity_key ` set xs \<and>
   (a \<in> set (keep_first xs) \<longleftrightarrow>
      find (\<lambda>y. identity_key y = identity_key a) xs = Some a) \<and>
   df_rows (fst (fetch_all_artworks keep_first r w)) = keep_first (fst (all_rows_of r w)) \<and>
   (\<exists>rows2. fst (all_rows_of r w) = fst (notable_loop r 0 [] w) @ rows2) \<and>
   (c \<in> set (df_rows (fst (fetch_all_artworks keep_first r w))) \<and>
    b \<in> set (fst (notable_loop r 0 [] w)) \<and> identity_key b = identity_key c \<longrightarrow>
      c \<in> set (fst (notable_loop r 0 [] w)))"
proof -
  have wins: "c \<in> set (fst (notable_loop r 0 [] w))"
    if c: "c \<in> set (df_rows (fst (fetch_all_artworks keep_first r w)))"
      and b: "b \<in> set (fst (notable_loop r 0 [] w))" "identity_key b = identity_key c"
  proof -
    from all_rows_strategy_order[of r w] obtain rows2 where
      o: "fst (all_rows_of r w) = fst (notable_loop r 0 [] w) @ rows2" by (elim exE)
    from c have f: "find (\<lambda>y. identity_key y = identity_key c)
        (fst (notable_loop r 0 [] w) @ rows2) = Some c"
      unfolding dataset_rows keep_first_find o .
    show ?thesis
      by (rule find_append_first[where Q = "\<lambda>y. identity_key y = identity_key c",
            OF b(1) b(2) f])
  qed
  show ?thesis
  proof (intro conjI impI)
    show "distinct (map identity_key (keep_first xs))"
      by (rule keep_first_distinct)
    show "identity_key ` set (keep_first xs) = identity_key ` set xs"
      by (rule keep_first_keys)
    show "a \<in> set (keep_first xs) \<longleftrightarrow>
        find (\<lambda>y. identity_key y = identity_key a) xs = Some a"
      by (rule keep_first_find)
    show "df_rows (fst (fetch_all_artworks keep_first r w)) = keep_first (fst (all_rows_of r w))"
      by (rule dataset_rows)
    show "\<exists>rows2. fst (all_rows_of r w) = fst (notable_loop r 0 [] w) @ rows2"
      by (rule all_rows_strategy_order)
    assume "c \<in> set (df_rows (fst (fetch_all_artworks keep_first r w))) \<and>
      b \<in> set (fst (notable_loop r 0 [] w)) \<and> identity_key b = identity_key c"
    then show "c \<in> set (fst (notable_loop r 0 [] w))"
      by (elim conjE) (rule wins)
  qed
qed

theorem dedupe_keeps_earliest_witness:
  "fst (notable_loop (by_strategy [row_with ''Point(2 48)''] [row_bare]) 0 [] start) =
     [\<lparr>painter = ''Monet'', painting = ''Impression'', museum = ''Marmottan'',
       city = ''Unknown'', country = ''Unknown'', lat = Some 48, lon = Some 2,
       wikipedia_url = ''''\<rparr>] \<and>
   fst (all_rows_of (by_strategy [row_with ''Point(2 48)''] [row_bare]) start) =
     [\<lparr>painter = ''Monet'', painting = ''Impression'', museum = ''Marmottan'',
       city = ''Unknown'', country = ''Unknown'', lat = Some 48, lon = Some 2,
       wikipedia_url = ''''\<rparr>,
      \<lparr>painter = ''Monet'', painting = ''Impression'', museum = ''Marmottan'',
       city = ''Unknown'', country = ''Unknown'', lat = None, lon = None,
       wikipedia_url = ''''\<rparr>] \<and>
   df_rows (fst (fetch_all_artworks keep_first
       (by_strategy [row_with ''Point(2 48)''] [row_bare]) start)) =
     [\<lparr>painter = ''Monet'', painting = ''Impression'', museum = ''Marmottan'',
       city = ''Unknown'', country = ''Unknown'', lat = Some 48, lon = Some 2,
       wikipedia_url = ''''\<rparr>]"
proof -
  have n: "fst (notable_loop (by_strategy [row_with ''Point(2 48)''] [row_bare]) 0 [] start) =
     [\<lparr>painter = ''Monet'', painting = ''Impression'', museum = ''Marmottan'',
       city = ''Unknown'', country = ''Unknown'', lat = Some 48, lon = Some 2,
       wikipedia_url = ''''\<rparr>]"
    by (simp add: run_simps)
  have a: "fst (all_rows_of (by_strategy [row_with ''Point(2 48)''] [row_bare]) start) =
     [\<lparr>painter = ''Monet'', painting = ''Impression'', museum = ''Marmottan'',
       city = ''Unknown'', country = ''Unknown'', lat = Some 48, lon = Some 2,
       wikipedia_url = ''''\<rparr>,
      \<lparr>painter = ''Monet'', painting = ''Impression'', museum = ''Marmottan'',
       city = ''Unknown'', country = ''Unknown'', lat = None, lon = None,
       wikipedia_url = ''''\<rparr>]"
    by (simp add: run_simps)
  have "df_rows (fst (fetch_all_artworks keep_first
        (by_strategy [row_with ''Point(2 48)''] [row_bare]) start)) =
      keep_first (fst (all_rows_of (by_strategy [row_with ''Point(2 48)''] [row_bare]) start))"
    by (rule dedupe_keeps_earliest[where r = "by_strategy [row_with ''Point(2 48)''] [row_bare]"
          and w = start, THEN conjunct2, THEN conjunct2, THEN conjunct2, THEN conjunct1])
  then have "df_rows (fst (fetch_all_artworks keep_first
        (by_strategy [row_with ''Point(2 48)''] [row_bare]) start)) =
     [\<lparr>painter = ''Monet'', painting = ''Impression'', museum = ''Marmottan'',
       city = ''Unknown'', country = ''Unknown'', lat = Some 48, lon = Some 2,
       wikipedia_url = ''''\<rparr>]"
    unfolding a by (simp add: identity_key_def)
  with n a show ?thesis by (intro conjI)
qed

end
